theory Spec2Isabelle
  imports Complex_Main "HOL-Library.Word"
begin

section \<open>The denoising autoencoder notebook\<close>

text \<open>
  The program is the notebook \<^verbatim>\<open>4_autoencoders/Autoencoders-Solution.ipynb\<close>: a
  sequence of cells that prepare the MNIST images, add noise, build an encoder, a decoder
  and their composition with the Keras functional interface, train the composition and
  predict. The cells up to training are embedded, in the order of the notebook. The array and layer
  primitives the cells call belong to numpy and Keras; each is given here by the
  definition its documentation states, next to the cell that calls it. Floating-point
  numbers are read as real numbers (no rounding, no NaN, no infinity).
\<close>

subsection \<open>Arrays\<close>

text \<open>
  A numpy array: its shape and its elements in row-major (C) order. An array of numpy
  always holds as many elements as its shape says (\<open>well_shaped\<close>).
\<close>

record 'a ndarray =
  shape :: "nat list"
  data :: "'a list"

definition well_shaped :: "'a ndarray \<Rightarrow> bool" where
  "well_shaped a = (length (data a) = prod_list (shape a))"

datatype error = ValueError | NameError | IndexError | TypeError | FloatingPointError

text \<open>
  \<^verbatim>\<open>np.reshape(a, newshape)\<close>: the elements stay as they are, in the same order. One
  entry of \<open>newshape\<close> may be \<open>-1\<close>: it is inferred from the number of elements, which
  the product of the other entries must divide. Any other mismatch is a ValueError.
\<close>

definition np_reshape :: "'a ndarray \<Rightarrow> int list \<Rightarrow> error + 'a ndarray" where
  "np_reshape a newshape =
     (let n = length (data a);
          known = nat (prod_list (filter (\<lambda>d. d \<noteq> - 1) newshape))
      in if list_ex (\<lambda>d. d < - 1) newshape \<or> 1 < length (filter (\<lambda>d. d = - 1) newshape)
         then Inl ValueError
         else if list_ex (\<lambda>d. d = - 1) newshape
         then (if known = 0 \<or> n mod known \<noteq> 0 then Inl ValueError
               else Inr \<lparr>shape = map (\<lambda>d. if d = - 1 then n div known else nat d) newshape,
                         data = data a\<rparr>)
         else if known = n then Inr \<lparr>shape = map nat newshape, data = data a\<rparr>
         else Inl ValueError)"

text \<open>
  \<^verbatim>\<open>a / 255\<close> on an array of unsigned 8-bit integers (Python 3, the notebook's kernel):
  true division, element by element, giving a new array of floats of the same shape.
\<close>

definition np_true_divide :: "8 word ndarray \<Rightarrow> real \<Rightarrow> real ndarray" where
  "np_true_divide a d = \<lparr>shape = shape a, data = map (\<lambda>p. real (unat p) / d) (data a)\<rparr>"

subsection \<open>Data preparation (the cell after the MNIST images are loaded)\<close>

text \<open>\<^verbatim>\<open>image_size = 28\<close>\<close>

definition image_size :: nat where
  "image_size = 28"

text \<open>
  \<^verbatim>\<open>x_train = np.reshape(x_train, [-1, image_size, image_size, 1]) / 255\<close>, and the same
  for \<^verbatim>\<open>x_test\<close>.
\<close>

definition data_preparation :: "8 word ndarray \<Rightarrow> error + real ndarray" where
  "data_preparation x =
     (case np_reshape x [- 1, int image_size, int image_size, 1] of
        Inl e \<Rightarrow> Inl e
      | Inr r \<Rightarrow> Inr (np_true_divide r 255))"

subsection \<open>The interpreter's state\<close>

text \<open>
  The cells after data preparation work on arrays of floats that live in the interpreter:
  array objects by address (an object is never changed or freed below, a new object gets
  the next address), the global names bound to them, and the random generator of
  \<^verbatim>\<open>np.random\<close>, given as the sequence of standard normal variates it will return.
\<close>

record py_state =
  heap :: "real ndarray list"
  vars :: "string \<Rightarrow> nat option"
  rng :: "nat \<Rightarrow> real"

text \<open>Reading a name: a name that is not bound (to an object of the heap) is a NameError.\<close>

definition lookup :: "string \<Rightarrow> py_state \<Rightarrow> error + real ndarray" where
  "lookup v s =
     (case vars s v of
        None \<Rightarrow> Inl NameError
      | Some a \<Rightarrow> if a < length (heap s) then Inr (heap s ! a) else Inl NameError)"

text \<open>\<^verbatim>\<open>v = <a new array>\<close>: the array becomes a new object and the name is bound to it.\<close>

definition bind_new :: "string \<Rightarrow> real ndarray \<Rightarrow> py_state \<Rightarrow> py_state" where
  "bind_new v a s = s\<lparr>heap := heap s @ [a], vars := (vars s)(v \<mapsto> length (heap s))\<rparr>"

text \<open>
  \<^verbatim>\<open>np.random.normal(loc, scale, size)\<close>: an array of the shape \<open>size\<close> whose elements
  are \<open>loc + scale * z\<close> for the next standard normal variates \<open>z\<close> of the generator,
  which moves on by that many variates.
\<close>

definition np_random_normal ::
  "real \<Rightarrow> real \<Rightarrow> nat list \<Rightarrow> py_state \<Rightarrow> real ndarray \<times> py_state" where
  "np_random_normal loc scale size' s =
     (let n = prod_list size'
      in (\<lparr>shape = size', data = map (\<lambda>i. loc + scale * rng s i) [0..<n]\<rparr>,
          s\<lparr>rng := (\<lambda>i. rng s (n + i))\<rparr>))"

text \<open>
  \<^verbatim>\<open>a + b\<close> on arrays of one shape: a new array, the sums element by element. (numpy
  broadcasts operands of different shapes when they are compatible; the notebook only adds
  arrays of one shape, and every other pair is the ValueError of incompatible shapes here.)
\<close>

definition np_add :: "real ndarray \<Rightarrow> real ndarray \<Rightarrow> error + real ndarray" where
  "np_add a b =
     (if shape a = shape b
      then Inr \<lparr>shape = shape a, data = map (\<lambda>(u, v). u + v) (zip (data a) (data b))\<rparr>
      else Inl ValueError)"

text \<open>
  \<^verbatim>\<open>np.clip(a, a_min, a_max)\<close>: a new array,
  \<^verbatim>\<open>minimum(a_max, maximum(a, a_min))\<close> element by element.
\<close>

definition np_clip :: "real ndarray \<Rightarrow> real \<Rightarrow> real \<Rightarrow> real ndarray" where
  "np_clip a a_min a_max =
     \<lparr>shape = shape a, data = map (\<lambda>v. min a_max (max v a_min)) (data a)\<rparr>"

text \<open>The three forms of assignment the noise cell uses, and cells as sequences.\<close>

definition assign_random_normal ::
  "string \<Rightarrow> real \<Rightarrow> real \<Rightarrow> string \<Rightarrow> py_state \<Rightarrow> error + py_state" where
  "assign_random_normal target loc scale src s =
     (case lookup src s of
        Inl e \<Rightarrow> Inl e
      | Inr a \<Rightarrow> (case np_random_normal loc scale (shape a) s of
                   (noise, s') \<Rightarrow> Inr (bind_new target noise s')))"

definition assign_add :: "string \<Rightarrow> string \<Rightarrow> string \<Rightarrow> py_state \<Rightarrow> error + py_state" where
  "assign_add target l r s =
     (case lookup l s of
        Inl e \<Rightarrow> Inl e
      | Inr a \<Rightarrow> (case lookup r s of
                   Inl e \<Rightarrow> Inl e
                 | Inr b \<Rightarrow> (case np_add a b of
                              Inl e \<Rightarrow> Inl e
                            | Inr c \<Rightarrow> Inr (bind_new target c s))))"

definition assign_clip ::
  "string \<Rightarrow> string \<Rightarrow> real \<Rightarrow> real \<Rightarrow> py_state \<Rightarrow> error + py_state" where
  "assign_clip target src a_min a_max s =
     (case lookup src s of
        Inl e \<Rightarrow> Inl e
      | Inr a \<Rightarrow> Inr (bind_new target (np_clip a a_min a_max) s))"

fun run :: "(py_state \<Rightarrow> error + py_state) list \<Rightarrow> py_state \<Rightarrow> error + py_state" where
  "run [] s = Inr s"
| "run (c # cs) s = (case c s of Inl e \<Rightarrow> Inl e | Inr s' \<Rightarrow> run cs s')"

subsection \<open>Noise injection\<close>

text \<open>
  \<^verbatim>\<open>
  noise = np.random.normal(loc=0.5, scale=0.5, size=x_train.shape)
  x_train_noisy = x_train + noise
  noise = np.random.normal(loc=0.5, scale=0.5, size=x_test.shape)
  x_test_noisy = x_test + noise

  x_train_noisy = np.clip(x_train_noisy, 0., 1.)
  x_test_noisy = np.clip(x_test_noisy, 0., 1.)
  \<close>
\<close>

definition noise_injection :: "py_state \<Rightarrow> error + py_state" where
  "noise_injection =
     run [assign_random_normal ''noise'' 0.5 0.5 ''x_train'',
          assign_add ''x_train_noisy'' ''x_train'' ''noise'',
          assign_random_normal ''noise'' 0.5 0.5 ''x_test'',
          assign_add ''x_test_noisy'' ''x_test'' ''noise'',
          assign_clip ''x_train_noisy'' ''x_train_noisy'' 0 1,
          assign_clip ''x_test_noisy'' ''x_test_noisy'' 0 1]"

text \<open>The noisy image the cell computes from a clean image and the variates drawn for it.\<close>

definition noisy :: "real ndarray \<Rightarrow> (nat \<Rightarrow> real) \<Rightarrow> real ndarray" where
  "noisy x z =
     \<lparr>shape = shape x,
      data = map (\<lambda>v. min 1 (max v 0))
               (map (\<lambda>(u, v). u + v)
                    (zip (data x) (map (\<lambda>i. 0.5 + 0.5 * z i) [0..<prod_list (shape x)])))\<rparr>"

subsection \<open>Layers and symbolic tensors\<close>

text \<open>
  The model cells build Keras layers and call them on symbolic tensors. A layer is written
  with the arguments the notebook passes to its constructor, in the order: name, then the
  keyword arguments. An argument the notebook leaves out is \<open>None\<close>, and the library's
  default applies (\<open>strides_of\<close>, \<open>activate\<close>). Where the notebook gives a layer no name
  the name is the one Keras generates in a fresh session; names identify the weights of a
  layer. A model is itself a layer: \<open>Model name input_shape layers\<close>.
\<close>

datatype padding = valid | same

datatype activation = relu | sigmoid

datatype layer =
    Conv2D string nat nat "nat option" "activation option" padding
  | Conv2DTranspose string nat nat "nat option" "activation option" padding
  | Flatten
  | Dense string nat "activation option"
  | Reshape "nat list"
  | Activation string activation
  | Model string "nat option list" "layer list"

definition strides_of :: "nat option \<Rightarrow> nat" where
  "strides_of st = (case st of None \<Rightarrow> 1 | Some n \<Rightarrow> n)"

definition activate :: "activation option \<Rightarrow> real \<Rightarrow> real" where
  "activate a v =
     (case a of
        None \<Rightarrow> v
      | Some relu \<Rightarrow> max v 0
      | Some sigmoid \<Rightarrow> 1 / (1 + exp (- v)))"

text \<open>
  Keras \<^verbatim>\<open>conv_output_length\<close> (dilation 1): with \<^verbatim>\<open>same\<close> padding the length is
  \<^verbatim>\<open>(input_length + stride - 1) // stride\<close>, with \<^verbatim>\<open>valid\<close> padding
  \<^verbatim>\<open>(input_length - filter_size + 1 + stride - 1) // stride\<close>. Keras
  \<^verbatim>\<open>deconv_length\<close> (no output padding): \<^verbatim>\<open>dim_size * stride_size\<close> with \<^verbatim>\<open>same\<close>,
  \<^verbatim>\<open>dim_size * stride_size + max(kernel_size - stride_size, 0)\<close> with \<^verbatim>\<open>valid\<close>.
\<close>

definition conv_output_length :: "nat \<Rightarrow> nat \<Rightarrow> padding \<Rightarrow> nat \<Rightarrow> nat" where
  "conv_output_length input_length filter_size p stride =
     (case p of
        same \<Rightarrow> (input_length + stride - 1) div stride
      | valid \<Rightarrow> (input_length - filter_size + 1 + stride - 1) div stride)"

definition deconv_length :: "nat \<Rightarrow> nat \<Rightarrow> nat \<Rightarrow> padding \<Rightarrow> nat" where
  "deconv_length dim_size stride_size kernel_size p =
     (case p of
        same \<Rightarrow> dim_size * stride_size
      | valid \<Rightarrow> dim_size * stride_size + (kernel_size - stride_size))"

text \<open>
  The two functions above are only called through \<open>conv_shape\<close>, which refuses what HOL's
  truncating subtraction and division by zero would hide: a stride of zero, and an input
  shorter than the kernel under \<^verbatim>\<open>valid\<close> padding (a negative dimension in the library).
\<close>

definition conv_shape ::
  "bool \<Rightarrow> nat \<Rightarrow> nat \<Rightarrow> nat \<Rightarrow> padding \<Rightarrow> nat \<Rightarrow> nat \<Rightarrow> error + nat \<times> nat \<times> nat" where
  "conv_shape transposed filters k st p h w =
     (if st = 0 \<or> k = 0 then Inl ValueError
      else if transposed
      then Inr (deconv_length h st k p, deconv_length w st k p, filters)
      else if p = valid \<and> (h < k \<or> w < k) then Inl ValueError
      else Inr (conv_output_length h k p st, conv_output_length w k p st, filters))"

text \<open>
  Shapes of symbolic tensors carry the batch dimension first, which is undefined
  (\<open>None\<close>). \<open>compute_output_shape\<close> is the shape inference a layer does when it is
  called on a symbolic tensor; a layer refuses an input of the wrong rank, and the
  convolution, dense, flatten and reshape layers an input whose other dimensions are not
  all defined.
\<close>

definition defined_dims :: "nat option list \<Rightarrow> error + nat list" where
  "defined_dims ds = (if list_all (\<lambda>d. d \<noteq> None) ds then Inr (map the ds) else Inl ValueError)"

fun compute_output_shape :: "layer \<Rightarrow> nat option list \<Rightarrow> error + nat option list"
  and compute_output_shapes :: "layer list \<Rightarrow> nat option list \<Rightarrow> error + nat option list" where
  "compute_output_shape (Conv2D nm filters k st a p) input_shape =
     (case input_shape of
        [b, Some h, Some w, Some c] \<Rightarrow>
          (case conv_shape False filters k (strides_of st) p h w of
             Inl e \<Rightarrow> Inl e
           | Inr (oh, ow, f) \<Rightarrow> Inr [b, Some oh, Some ow, Some f])
      | _ \<Rightarrow> Inl ValueError)"
| "compute_output_shape (Conv2DTranspose nm filters k st a p) input_shape =
     (case input_shape of
        [b, Some h, Some w, Some c] \<Rightarrow>
          (case conv_shape True filters k (strides_of st) p h w of
             Inl e \<Rightarrow> Inl e
           | Inr (oh, ow, f) \<Rightarrow> Inr [b, Some oh, Some ow, Some f])
      | _ \<Rightarrow> Inl ValueError)"
| "compute_output_shape Flatten input_shape =
     (case input_shape of
        [] \<Rightarrow> Inl ValueError
      | b # ds \<Rightarrow> (case defined_dims ds of
                    Inl e \<Rightarrow> Inl e
                  | Inr ns \<Rightarrow> Inr [b, Some (prod_list ns)]))"
| "compute_output_shape (Dense nm units a) input_shape =
     (if length input_shape < 2 \<or> last input_shape = None then Inl ValueError
      else Inr (butlast input_shape @ [Some units]))"
| "compute_output_shape (Reshape target_shape) input_shape =
     (case input_shape of
        [] \<Rightarrow> Inl ValueError
      | b # ds \<Rightarrow> (case defined_dims ds of
                    Inl e \<Rightarrow> Inl e
                  | Inr ns \<Rightarrow> if prod_list ns = prod_list target_shape
                             then Inr (b # map Some target_shape) else Inl ValueError))"
| "compute_output_shape (Activation nm a) input_shape = Inr input_shape"
| "compute_output_shape (Model nm model_input_shape layers) input_shape =
     (if input_shape = model_input_shape then compute_output_shapes layers input_shape
      else Inl ValueError)"
| "compute_output_shapes [] input_shape = Inr input_shape"
| "compute_output_shapes (l # ls) input_shape =
     (case compute_output_shape l input_shape of
        Inl e \<Rightarrow> Inl e
      | Inr s \<Rightarrow> compute_output_shapes ls s)"

text \<open>
  A symbolic tensor: its shape, the \<^verbatim>\<open>Input\<close> it was computed from and the layers
  called on the way, in order. \<^verbatim>\<open>K.int_shape(x)\<close> is \<open>tshape x\<close>.
\<close>

record tensor =
  tshape :: "nat option list"
  origin :: string
  history :: "layer list"

definition Input :: "nat list \<Rightarrow> string \<Rightarrow> tensor" where
  "Input shp nm = \<lparr>tshape = None # map Some shp, origin = nm, history = []\<rparr>"

text \<open>\<^verbatim>\<open>layer(x)\<close>: calling a layer on a symbolic tensor.\<close>

definition apply_layer :: "layer \<Rightarrow> tensor \<Rightarrow> error + tensor" where
  "apply_layer l x =
     (case compute_output_shape l (tshape x) of
        Inl e \<Rightarrow> Inl e
      | Inr s \<Rightarrow> Inr \<lparr>tshape = s, origin = origin x, history = history x @ [l]\<rparr>)"

text \<open>\<^verbatim>\<open>x = l1(x); x = l2(x); ...\<close>: the first error ends the cell.\<close>

fun chain :: "tensor \<Rightarrow> layer list \<Rightarrow> error + tensor" where
  "chain x [] = Inr x"
| "chain x (l # ls) = (case apply_layer l x of Inl e \<Rightarrow> Inl e | Inr y \<Rightarrow> chain y ls)"

text \<open>
  \<^verbatim>\<open>Model(inputs, outputs, name=...)\<close>: the layers between an input and a tensor
  computed from it; a tensor that is not an input, or an output computed from another
  input, is a ValueError.
\<close>

definition make_model :: "tensor \<Rightarrow> tensor \<Rightarrow> string \<Rightarrow> error + layer" where
  "make_model inputs outputs nm =
     (if history inputs = [] \<and> origin outputs = origin inputs
      then Inr (Model nm (tshape inputs) (history outputs)) else Inl ValueError)"

text \<open>
  \<^verbatim>\<open>shape[i]\<close> used as a number: an index out of range is an IndexError, an undefined
  dimension cannot be multiplied (TypeError).
\<close>

definition dim :: "nat option list \<Rightarrow> nat \<Rightarrow> error + nat" where
  "dim shp i =
     (if i < length shp then (case shp ! i of None \<Rightarrow> Inl TypeError | Some n \<Rightarrow> Inr n)
      else Inl IndexError)"

subsection \<open>The model cells\<close>

text \<open>
  \<^verbatim>\<open>
  input_shape = (image_size, image_size, 1)
  batch_size = 128
  kernel_size = 3
  latent_dim = 16
  \<close>
\<close>

definition input_shape :: "nat list" where
  "input_shape = [image_size, image_size, 1]"

definition batch_size :: nat where
  "batch_size = 128"

definition kernel_size :: nat where
  "kernel_size = 3"

definition latent_dim :: nat where
  "latent_dim = 16"

text \<open>
  \<^verbatim>\<open>
  inputs = Input(shape=input_shape, name='encoder_input')
  x = inputs
  x = Conv2D(filters=32, kernel_size=kernel_size, strides=2, activation='relu', padding='same')(x)
  x = Conv2D(filters=64, kernel_size=kernel_size, strides=2, activation='relu', padding='same')(x)
  \<close>
\<close>

definition inputs :: tensor where
  "inputs = Input input_shape ''encoder_input''"

definition encoder_convolutions :: "error + tensor" where
  "encoder_convolutions =
     chain inputs
       [Conv2D ''conv2d_1'' 32 kernel_size (Some 2) (Some relu) same,
        Conv2D ''conv2d_2'' 64 kernel_size (Some 2) (Some relu) same]"

text \<open>
  \<^verbatim>\<open>
  shape = K.int_shape(x)
  x = Flatten()(x)
  latent = Dense(latent_dim, name='latent_vector')(x)
  encoder = Model(inputs, latent, name='encoder')
  \<close>
\<close>

definition shape_before_flatten :: "error + nat option list" where
  "shape_before_flatten =
     (case encoder_convolutions of Inl e \<Rightarrow> Inl e | Inr x \<Rightarrow> Inr (tshape x))"

definition encoder :: "error + layer" where
  "encoder =
     (case encoder_convolutions of
        Inl e \<Rightarrow> Inl e
      | Inr x \<Rightarrow>
          (case chain x [Flatten, Dense ''latent_vector'' latent_dim None] of
             Inl e \<Rightarrow> Inl e
           | Inr latent \<Rightarrow> make_model inputs latent ''encoder''))"

text \<open>
  \<^verbatim>\<open>
  latent_inputs = Input(shape=(latent_dim,), name='decoder_input')
  x = Dense(shape[1] * shape[2] * shape[3])(latent_inputs)
  x = Reshape((shape[1], shape[2], shape[3]))(x)
  x = Conv2DTranspose(filters=64, kernel_size=kernel_size, strides=2, activation='relu', padding='same')(x)
  x = Conv2DTranspose(filters=32, kernel_size=kernel_size, strides=2, activation='relu', padding='same')(x)
  x = Conv2DTranspose(filters=1, kernel_size=kernel_size, padding='same')(x)
  outputs = Activation('sigmoid', name='decoder_output')(x)
  decoder = Model(latent_inputs, outputs, name='decoder')
  \<close>
\<close>

definition latent_inputs :: tensor where
  "latent_inputs = Input [latent_dim] ''decoder_input''"

definition decoder_layers :: "nat \<Rightarrow> nat \<Rightarrow> nat \<Rightarrow> layer list" where
  "decoder_layers shape1 shape2 shape3 =
     [Dense ''dense_1'' (shape1 * shape2 * shape3) None,
      Reshape [shape1, shape2, shape3],
      Conv2DTranspose ''conv2d_transpose_1'' 64 kernel_size (Some 2) (Some relu) same,
      Conv2DTranspose ''conv2d_transpose_2'' 32 kernel_size (Some 2) (Some relu) same,
      Conv2DTranspose ''conv2d_transpose_3'' 1 kernel_size None None same,
      Activation ''decoder_output'' sigmoid]"

definition decoder :: "error + layer" where
  "decoder =
     (case shape_before_flatten of
        Inl e \<Rightarrow> Inl e
      | Inr shp \<Rightarrow>
          (case dim shp 1 of
             Inl e \<Rightarrow> Inl e
           | Inr shape1 \<Rightarrow>
               (case dim shp 2 of
                  Inl e \<Rightarrow> Inl e
                | Inr shape2 \<Rightarrow>
                    (case dim shp 3 of
                       Inl e \<Rightarrow> Inl e
                     | Inr shape3 \<Rightarrow>
                         (case chain latent_inputs (decoder_layers shape1 shape2 shape3) of
                            Inl e \<Rightarrow> Inl e
                          | Inr outputs \<Rightarrow> make_model latent_inputs outputs ''decoder'')))))"

text \<open>\<^verbatim>\<open>autoencoder = Model(inputs, decoder(encoder(inputs)), name='autoencoder')\<close>\<close>

definition autoencoder :: "error + layer" where
  "autoencoder =
     (case encoder of
        Inl e \<Rightarrow> Inl e
      | Inr enc \<Rightarrow>
          (case decoder of
             Inl e \<Rightarrow> Inl e
           | Inr dec \<Rightarrow>
               (case chain inputs [enc, dec] of
                  Inl e \<Rightarrow> Inl e
                | Inr outputs \<Rightarrow> make_model inputs outputs ''autoencoder'')))"

subsection \<open>Calling a model on an image\<close>

text \<open>
  The weights of the layers, by layer name: the kernel and the bias of a layer, each in
  row-major order. The store is read, never copied: every model that contains a layer
  reads that layer's weights at the layer's name. The library creates the weights with the
  sizes the layer needs; \<open>item\<close> reads a list and gives 0 beyond its end, so that reading
  a pixel of the zero padding and reading a stored list are one function.
\<close>

type_synonym weights = "string \<Rightarrow> real list \<times> real list"

definition item :: "real list \<Rightarrow> nat \<Rightarrow> real" where
  "item xs i = (if i < length xs then xs ! i else 0)"

text \<open>The pixel at row \<open>i\<close>, column \<open>j\<close>, channel \<open>c\<close> of an image; 0 outside the image.\<close>

definition pixel :: "real ndarray \<Rightarrow> int \<Rightarrow> int \<Rightarrow> nat \<Rightarrow> real" where
  "pixel x i j c =
     (case shape x of
        [h, w, ch] \<Rightarrow>
          if 0 \<le> i \<and> i < int h \<and> 0 \<le> j \<and> j < int w \<and> c < ch
          then item (data x) ((nat i * w + nat j) * ch + c) else 0
      | _ \<Rightarrow> 0)"

text \<open>
  The rows (or columns) of zero padding before the image in a convolution from
  \<open>input_length\<close> to \<open>output_length\<close>: none with \<^verbatim>\<open>valid\<close>, and with \<^verbatim>\<open>same\<close>
  half (rounded down) of \<^verbatim>\<open>max((output_length - 1) * stride + k - input_length, 0)\<close>.
\<close>

definition pad_before :: "nat \<Rightarrow> nat \<Rightarrow> nat \<Rightarrow> nat \<Rightarrow> padding \<Rightarrow> nat" where
  "pad_before input_length output_length k st p =
     (case p of
        valid \<Rightarrow> 0
      | same \<Rightarrow> ((output_length - 1) * st + k - input_length) div 2)"

text \<open>
  \<^verbatim>\<open>Conv2D\<close> on one image (channels last): the kernel has the shape
  \<open>(k, k, channels, filters)\<close>; the activation is applied to the sum plus the bias.
\<close>

definition conv2d ::
  "real list \<times> real list \<Rightarrow> nat \<Rightarrow> nat \<Rightarrow> nat \<Rightarrow> padding \<Rightarrow> activation option \<Rightarrow>
   real ndarray \<Rightarrow> error + real ndarray" where
  "conv2d kb filters k st p a x =
     (case shape x of
        [h, w, c] \<Rightarrow>
          (case conv_shape False filters k st p h w of
             Inl e \<Rightarrow> Inl e
           | Inr (oh, ow, f) \<Rightarrow>
               (let pt = pad_before h oh k st p; pl = pad_before w ow k st p
                in Inr \<lparr>shape = [oh, ow, f],
                        data =
                          [activate a
                             (item (snd kb) co +
                              sum_list
                                [pixel x (int (oy * st + i) - int pt) (int (ox * st + j) - int pl) ci *
                                 item (fst kb) (((i * k + j) * c + ci) * f + co).
                                 i \<leftarrow> [0..<k], j \<leftarrow> [0..<k], ci \<leftarrow> [0..<c]]).
                           oy \<leftarrow> [0..<oh], ox \<leftarrow> [0..<ow], co \<leftarrow> [0..<f]]\<rparr>))
      | _ \<Rightarrow> Inl ValueError)"

text \<open>
  \<^verbatim>\<open>Conv2DTranspose\<close> on one image: the transpose of the convolution that maps the output
  back to the input. The kernel has the shape \<open>(k, k, filters, channels)\<close>; input pixel
  \<open>(u div st, v div st)\<close> reaches output pixel \<open>(oy, ox)\<close> through kernel entry
  \<open>(i, j)\<close> when \<open>u = oy + pad - i\<close> and \<open>v = ox + pad - j\<close> are multiples of the stride.
\<close>

definition conv2d_transpose ::
  "real list \<times> real list \<Rightarrow> nat \<Rightarrow> nat \<Rightarrow> nat \<Rightarrow> padding \<Rightarrow> activation option \<Rightarrow>
   real ndarray \<Rightarrow> error + real ndarray" where
  "conv2d_transpose kb filters k st p a x =
     (case shape x of
        [h, w, c] \<Rightarrow>
          (case conv_shape True filters k st p h w of
             Inl e \<Rightarrow> Inl e
           | Inr (oh, ow, f) \<Rightarrow>
               (let pt = pad_before oh h k st p; pl = pad_before ow w k st p
                in Inr \<lparr>shape = [oh, ow, f],
                        data =
                          [activate a
                             (item (snd kb) co +
                              sum_list
                                [(let u = int oy + int pt - int i; v = int ox + int pl - int j
                                  in if u mod int st = 0 \<and> v mod int st = 0
                                     then pixel x (u div int st) (v div int st) ci *
                                          item (fst kb) (((i * k + j) * f + co) * c + ci)
                                     else 0).
                                 i \<leftarrow> [0..<k], j \<leftarrow> [0..<k], ci \<leftarrow> [0..<c]]).
                           oy \<leftarrow> [0..<oh], ox \<leftarrow> [0..<ow], co \<leftarrow> [0..<f]]\<rparr>))
      | _ \<Rightarrow> Inl ValueError)"

text \<open>
  \<^verbatim>\<open>Dense\<close>: the kernel has the shape \<open>(n, units)\<close> for inputs whose last dimension is
  \<open>n\<close>; every row of \<open>n\<close> inputs gives \<open>units\<close> outputs.
\<close>

definition dense ::
  "real list \<times> real list \<Rightarrow> nat \<Rightarrow> activation option \<Rightarrow> real ndarray \<Rightarrow> error + real ndarray" where
  "dense kb units a x =
     (if shape x = [] then Inl ValueError
      else (let n = last (shape x); rows = prod_list (butlast (shape x))
            in Inr \<lparr>shape = butlast (shape x) @ [units],
                    data =
                      [activate a
                         (item (snd kb) j +
                          sum_list [item (data x) (r * n + i) * item (fst kb) (i * units + j).
                                    i \<leftarrow> [0..<n]]).
                       r \<leftarrow> [0..<rows], j \<leftarrow> [0..<units]]\<rparr>))"

text \<open>
  A layer called on one image (an array without the batch dimension), with the weights
  \<open>ws\<close>. A model checks the image against its input shape and calls its layers in order.
\<close>

fun call :: "weights \<Rightarrow> layer \<Rightarrow> real ndarray \<Rightarrow> error + real ndarray"
  and call_all :: "weights \<Rightarrow> layer list \<Rightarrow> real ndarray \<Rightarrow> error + real ndarray" where
  "call ws (Conv2D nm filters k st a p) x = conv2d (ws nm) filters k (strides_of st) p a x"
| "call ws (Conv2DTranspose nm filters k st a p) x =
     conv2d_transpose (ws nm) filters k (strides_of st) p a x"
| "call ws Flatten x = Inr \<lparr>shape = [prod_list (shape x)], data = data x\<rparr>"
| "call ws (Dense nm units a) x = dense (ws nm) units a x"
| "call ws (Reshape target_shape) x =
     (if prod_list (shape x) = prod_list target_shape
      then Inr \<lparr>shape = target_shape, data = data x\<rparr> else Inl ValueError)"
| "call ws (Activation nm a) x = Inr \<lparr>shape = shape x, data = map (activate (Some a)) (data x)\<rparr>"
| "call ws (Model nm model_input_shape layers) x =
     (if None # map Some (shape x) = model_input_shape then call_all ws layers x
      else Inl ValueError)"
| "call_all ws [] x = Inr x"
| "call_all ws (l # ls) x =
     (case call ws l x of Inl e \<Rightarrow> Inl e | Inr y \<Rightarrow> call_all ws ls y)"

text \<open>The names under which a layer reads weights.\<close>

fun weight_names :: "layer \<Rightarrow> string list" where
  "weight_names (Conv2D nm filters k st a p) = [nm]"
| "weight_names (Conv2DTranspose nm filters k st a p) = [nm]"
| "weight_names (Dense nm units a) = [nm]"
| "weight_names (Model nm model_input_shape layers) = concat (map weight_names layers)"
| "weight_names l = []"

subsection \<open>Batches of images\<close>

text \<open>
  The images of a batch (the first dimension counts them), the batch of a list of results,
  and \<^verbatim>\<open>x[batch_ids]\<close>, the new array of the images at the given indices.
\<close>

definition samples :: "real ndarray \<Rightarrow> real ndarray list" where
  "samples x =
     (case shape x of
        [] \<Rightarrow> []
      | n # ds \<Rightarrow>
          map (\<lambda>i. \<lparr>shape = ds, data = take (prod_list ds) (drop (i * prod_list ds) (data x))\<rparr>)
            [0..<n])"

definition stack :: "real ndarray list \<Rightarrow> real ndarray" where
  "stack ys =
     \<lparr>shape = length ys # (case ys of [] \<Rightarrow> [] | y # _ \<Rightarrow> shape y),
      data = concat (map data ys)\<rparr>"

definition gather :: "real ndarray \<Rightarrow> nat list \<Rightarrow> error + real ndarray" where
  "gather x batch_ids =
     (case shape x of
        [] \<Rightarrow> Inl IndexError
      | n # ds \<Rightarrow>
          if list_all (\<lambda>i. i < n) batch_ids
          then Inr \<lparr>shape = length batch_ids # ds,
                    data = concat (map (\<lambda>i. take (prod_list ds) (drop (i * prod_list ds) (data x)))
                                    batch_ids)\<rparr>
          else Inl IndexError)"

text \<open>A model called on a batch: on each image, in order; the first error ends the call.\<close>

fun call_each :: "weights \<Rightarrow> layer \<Rightarrow> real ndarray list \<Rightarrow> error + real ndarray list" where
  "call_each ws model [] = Inr []"
| "call_each ws model (x # xs) =
     (case call ws model x of
        Inl e \<Rightarrow> Inl e
      | Inr y \<Rightarrow> (case call_each ws model xs of Inl e \<Rightarrow> Inl e | Inr ys \<Rightarrow> Inr (y # ys)))"

definition call_batch :: "weights \<Rightarrow> layer \<Rightarrow> real ndarray \<Rightarrow> error + real ndarray" where
  "call_batch ws model x =
     (if shape x = [] then Inl ValueError
      else (case call_each ws model (samples x) of Inl e \<Rightarrow> Inl e | Inr ys \<Rightarrow> Inr (stack ys)))"

subsection \<open>Training\<close>

text \<open>
  The state of a model: the weights of its layers and the state of its optimizer. An
  optimizer is given the loss of the current batch as a function of the weights and
  returns the next state (the gradients are the library's). The library is a parameter:
  the optimizers it constructs, with their default hyperparameters, for a name, and the
  permutation \<^verbatim>\<open>np.random.shuffle\<close> applies to the indices in each epoch.
\<close>

record 'o model_state =
  model_weights :: weights
  optimizer_state :: 'o

type_synonym 'o optimizer = "(weights \<Rightarrow> error + real) \<Rightarrow> 'o model_state \<Rightarrow> 'o model_state"

record 'o library =
  optimizers :: "string \<Rightarrow> 'o optimizer option"
  shuffle :: "nat \<Rightarrow> nat list \<Rightarrow> nat list"

text \<open>
  The loss \<^verbatim>\<open>'mse'\<close>: the mean of \<^verbatim>\<open>square(y_pred - y_true)\<close> over the elements of
  the batch. The mean of no elements is not a number in the library and an error here. Of
  the losses Keras knows by name only this one is modelled.
\<close>

definition mean_squared_error :: "real ndarray \<Rightarrow> real ndarray \<Rightarrow> error + real" where
  "mean_squared_error y_true y_pred =
     (if shape y_true \<noteq> shape y_pred then Inl ValueError
      else if data y_true = [] then Inl FloatingPointError
      else Inr (sum_list (map (\<lambda>(t, p). (p - t)\<^sup>2) (zip (data y_true) (data y_pred))) /
                real (length (data y_true))))"

definition get_loss :: "string \<Rightarrow> error + (real ndarray \<Rightarrow> real ndarray \<Rightarrow> error + real)" where
  "get_loss nm =
     (if nm = ''mse'' \<or> nm = ''mean_squared_error'' then Inr mean_squared_error
      else Inl ValueError)"

text \<open>\<^verbatim>\<open>model.compile(loss=..., optimizer=...)\<close>, with both given by name.\<close>

record 'o compiled =
  compiled_model :: layer
  loss :: "real ndarray \<Rightarrow> real ndarray \<Rightarrow> error + real"
  optimizer :: "'o optimizer"

definition compile :: "'o library \<Rightarrow> layer \<Rightarrow> string \<Rightarrow> string \<Rightarrow> error + 'o compiled" where
  "compile lib model loss_name optimizer_name =
     (case get_loss loss_name of
        Inl e \<Rightarrow> Inl e
      | Inr l \<Rightarrow>
          (case optimizers lib optimizer_name of
             None \<Rightarrow> Inl ValueError
           | Some opt \<Rightarrow> Inr \<lparr>compiled_model = model, loss = l, optimizer = opt\<rparr>))"

text \<open>
  \<^verbatim>\<open>make_batches(size, batch_size)\<close>: the bounds \<open>(start, end)\<close> of the
  \<open>ceil(size / batch_size)\<close> consecutive batches.
\<close>

definition make_batches :: "nat \<Rightarrow> nat \<Rightarrow> (nat \<times> nat) list" where
  "make_batches size' bs =
     map (\<lambda>i. (i * bs, min size' ((i + 1) * bs))) [0..<(size' + bs - 1) div bs]"

text \<open>
  The loss of a batch as a function of the weights: the model's loss between the targets
  and what the model computes from the inputs.
\<close>

definition batch_loss ::
  "'o compiled \<Rightarrow> real ndarray \<Rightarrow> real ndarray \<Rightarrow> weights \<Rightarrow> error + real" where
  "batch_loss c x_batch y_batch ws =
     (case call_batch ws (compiled_model c) x_batch of
        Inl e \<Rightarrow> Inl e
      | Inr y_pred \<Rightarrow> loss c y_batch y_pred)"

text \<open>
  One training step: the loss of the batch at the current weights is logged, and the
  optimizer moves the state.
\<close>

definition train_on_batch ::
  "'o compiled \<Rightarrow> real ndarray \<Rightarrow> real ndarray \<Rightarrow> 'o model_state \<Rightarrow>
   error + real \<times> 'o model_state" where
  "train_on_batch c x_batch y_batch st =
     (case batch_loss c x_batch y_batch (model_weights st) of
        Inl e \<Rightarrow> Inl e
      | Inr l \<Rightarrow> Inr (l, optimizer c (batch_loss c x_batch y_batch) st))"

text \<open>
  The batches of one epoch, in order: inputs and targets are taken at the same indices
  \<^verbatim>\<open>batch_ids = index_array[batch_start:batch_end]\<close>.
\<close>

fun train_batches ::
  "'o compiled \<Rightarrow> real ndarray \<Rightarrow> real ndarray \<Rightarrow> nat list \<Rightarrow> (nat \<times> nat) list \<Rightarrow>
   'o model_state \<Rightarrow> error + real list \<times> 'o model_state" where
  "train_batches c x y index_array [] st = Inr ([], st)"
| "train_batches c x y index_array ((batch_start, batch_end) # batches) st =
     (let batch_ids = take (batch_end - batch_start) (drop batch_start index_array)
      in case gather x batch_ids of
           Inl e \<Rightarrow> Inl e
         | Inr x_batch \<Rightarrow>
             (case gather y batch_ids of
                Inl e \<Rightarrow> Inl e
              | Inr y_batch \<Rightarrow>
                  (case train_on_batch c x_batch y_batch st of
                     Inl e \<Rightarrow> Inl e
                   | Inr (l, st') \<Rightarrow>
                       (case train_batches c x y index_array batches st' of
                          Inl e \<Rightarrow> Inl e
                        | Inr (ls, st'') \<Rightarrow> Inr (l # ls, st'')))))"

text \<open>
  Validation: the losses of the batches of the validation data at the current weights,
  averaged with the batch sizes as the weights. Validation data that hold no image give no
  batch and no loss (\<open>None\<close>). It reads the weights and returns a number.
\<close>

fun test_batches ::
  "'o compiled \<Rightarrow> real ndarray \<Rightarrow> real ndarray \<Rightarrow> (nat \<times> nat) list \<Rightarrow> weights \<Rightarrow>
   error + real" where
  "test_batches c x y [] ws = Inr 0"
| "test_batches c x y ((batch_start, batch_end) # batches) ws =
     (let batch_ids = [batch_start..<batch_end]
      in case gather x batch_ids of
           Inl e \<Rightarrow> Inl e
         | Inr x_batch \<Rightarrow>
             (case gather y batch_ids of
                Inl e \<Rightarrow> Inl e
              | Inr y_batch \<Rightarrow>
                  (case batch_loss c x_batch y_batch ws of
                     Inl e \<Rightarrow> Inl e
                   | Inr l \<Rightarrow>
                       (case test_batches c x y batches ws of
                          Inl e \<Rightarrow> Inl e
                        | Inr rest \<Rightarrow> Inr (l * real (length batch_ids) + rest)))))"

definition test_loop ::
  "'o compiled \<Rightarrow> real ndarray \<Rightarrow> real ndarray \<Rightarrow> nat \<Rightarrow> weights \<Rightarrow>
   error + real option" where
  "test_loop c x y bs ws =
     (case shape x of
        [] \<Rightarrow> Inl ValueError
      | n # ds \<Rightarrow>
          if make_batches n bs = [] then Inr None
          else (case test_batches c x y (make_batches n bs) ws of
                  Inl e \<Rightarrow> Inl e
                | Inr weighted \<Rightarrow> Inr (Some (weighted / real n))))"

text \<open>
  The epochs of \<^verbatim>\<open>fit\<close>: the indices are shuffled, every batch is a training step, and
  after the last batch of the epoch the validation data, when given, are evaluated. The
  log of an epoch holds the losses of its batches and the validation loss.
\<close>

record epoch_log =
  batch_losses :: "real list"
  val_loss :: "real option"

fun fit_loop ::
  "'o compiled \<Rightarrow> real ndarray \<Rightarrow> real ndarray \<Rightarrow> (real ndarray \<times> real ndarray) option \<Rightarrow>
   (nat \<Rightarrow> nat list \<Rightarrow> nat list) \<Rightarrow> nat \<Rightarrow> nat list \<Rightarrow> nat list \<Rightarrow> 'o model_state \<Rightarrow>
   error + epoch_log list \<times> 'o model_state" where
  "fit_loop c x y validation_data shuffle' bs index_array [] st = Inr ([], st)"
| "fit_loop c x y validation_data shuffle' bs index_array (epoch # epochs) st =
     (let index_array' = shuffle' epoch index_array;
          batches = make_batches (length index_array') bs
      in case train_batches c x y index_array' batches st of
           Inl e \<Rightarrow> Inl e
         | Inr (ls, st') \<Rightarrow>
             (case (case validation_data of
                      None \<Rightarrow> Inr None
                    | Some (val_x, val_y) \<Rightarrow>
                        if batches = [] then Inr None
                        else test_loop c val_x val_y bs (model_weights st')) of
                Inl e \<Rightarrow> Inl e
              | Inr v \<Rightarrow>
                  (case fit_loop c x y validation_data shuffle' bs index_array' epochs st' of
                     Inl e \<Rightarrow> Inl e
                   | Inr (logs, st'') \<Rightarrow>
                       Inr (\<lparr>batch_losses = ls, val_loss = v\<rparr> # logs, st''))))"

text \<open>
  \<^verbatim>\<open>model.fit(x, y, validation_data=..., epochs=..., batch_size=...)\<close>: inputs and
  targets must hold the same number of images, and a batch size of zero is refused.
\<close>

definition fit ::
  "'o library \<Rightarrow> 'o compiled \<Rightarrow> real ndarray \<Rightarrow> real ndarray \<Rightarrow>
   (real ndarray \<times> real ndarray) option \<Rightarrow> nat \<Rightarrow> nat \<Rightarrow> 'o model_state \<Rightarrow>
   error + epoch_log list \<times> 'o model_state" where
  "fit lib c x y validation_data epochs bs st =
     (case shape x of
        [] \<Rightarrow> Inl ValueError
      | n # ds \<Rightarrow>
          if bs = 0 \<or> shape y = [] \<or> hd (shape y) \<noteq> n then Inl ValueError
          else fit_loop c x y validation_data (shuffle lib) bs [0..<n] [0..<epochs] st)"

subsection \<open>The training cell\<close>

text \<open>
  \<^verbatim>\<open>
  autoencoder.compile(loss='mse', optimizer='adam')
  autoencoder.fit(x_train_noisy,
                  x_train,
                  validation_data=(x_test_noisy, x_test),
                  epochs=2,
                  batch_size=batch_size)
  \<close>
\<close>

definition training_cell ::
  "'o library \<Rightarrow> py_state \<Rightarrow> 'o model_state \<Rightarrow> error + epoch_log list \<times> 'o model_state" where
  "training_cell lib s st =
     (case autoencoder of
        Inl e \<Rightarrow> Inl e
      | Inr ae \<Rightarrow>
          (case compile lib ae ''mse'' ''adam'' of
             Inl e \<Rightarrow> Inl e
           | Inr c \<Rightarrow>
               (case lookup ''x_train_noisy'' s of
                  Inl e \<Rightarrow> Inl e
                | Inr x_train_noisy \<Rightarrow>
                    (case lookup ''x_train'' s of
                       Inl e \<Rightarrow> Inl e
                     | Inr x_train \<Rightarrow>
                         (case lookup ''x_test_noisy'' s of
                            Inl e \<Rightarrow> Inl e
                          | Inr x_test_noisy \<Rightarrow>
                              (case lookup ''x_test'' s of
                                 Inl e \<Rightarrow> Inl e
                               | Inr x_test \<Rightarrow>
                                   fit lib c x_train_noisy x_train
                                     (Some (x_test_noisy, x_test)) 2 batch_size st))))))"

subsection \<open>Training as the specification describes it\<close>

text \<open>
  The specification's account of training, written without the library's loop: two epochs
  over the training set in mini-batches of 128 examples, in the order of the epoch; the
  loss of a mini-batch is the mean squared error between the reconstructions of its noisy
  images and its clean images; the optimizer moves the state once per mini-batch, with
  that loss as a function of the weights; after each epoch the same error is measured on
  the pairs of noisy and clean test images, at the weights the epoch ended with, and the
  state goes on unchanged. \<open>spec_training\<close> is compared with the training cell below.
\<close>

definition images_in :: "real ndarray \<Rightarrow> nat" where
  "images_in x = (case shape x of [] \<Rightarrow> 0 | n # ds \<Rightarrow> n)"

definition image_at :: "real ndarray \<Rightarrow> nat \<Rightarrow> real ndarray" where
  "image_at x i =
     (let ds = tl (shape x)
      in \<lparr>shape = ds, data = take (prod_list ds) (drop (i * prod_list ds) (data x))\<rparr>)"

definition reconstruction :: "weights \<Rightarrow> layer \<Rightarrow> real ndarray \<Rightarrow> real list" where
  "reconstruction ws model x = (case call ws model x of Inl e \<Rightarrow> [] | Inr y \<Rightarrow> data y)"

definition squared_error :: "real list \<Rightarrow> real list \<Rightarrow> real" where
  "squared_error ps ts = sum_list (map (\<lambda>(p, t). (p - t)\<^sup>2) (zip ps ts))"

definition reconstruction_mse ::
  "weights \<Rightarrow> layer \<Rightarrow> real ndarray \<Rightarrow> real ndarray \<Rightarrow> nat list \<Rightarrow> real" where
  "reconstruction_mse ws model x_noisy x_clean ids =
     sum_list (map (\<lambda>i. squared_error (reconstruction ws model (image_at x_noisy i))
                                       (data (image_at x_clean i))) ids) /
     real (length ids * prod_list (tl (shape x_clean)))"

definition mini_batches :: "nat \<Rightarrow> nat list \<Rightarrow> nat list list" where
  "mini_batches k ids = map (\<lambda>j. take k (drop (j * k) ids)) [0..<(length ids + k - 1) div k]"

fun spec_steps ::
  "'o optimizer \<Rightarrow> layer \<Rightarrow> real ndarray \<Rightarrow> real ndarray \<Rightarrow> nat list list \<Rightarrow> 'o model_state \<Rightarrow>
   real list \<times> 'o model_state" where
  "spec_steps opt model x_noisy x_clean [] st = ([], st)"
| "spec_steps opt model x_noisy x_clean (ids # batches) st =
     (case spec_steps opt model x_noisy x_clean batches
             (opt (\<lambda>ws. Inr (reconstruction_mse ws model x_noisy x_clean ids)) st) of
        (ls, st') \<Rightarrow> (reconstruction_mse (model_weights st) model x_noisy x_clean ids # ls, st'))"

fun spec_epochs ::
  "'o optimizer \<Rightarrow> layer \<Rightarrow> real ndarray \<Rightarrow> real ndarray \<Rightarrow> real ndarray \<Rightarrow> real ndarray \<Rightarrow>
   (nat \<Rightarrow> nat list \<Rightarrow> nat list) \<Rightarrow> nat list \<Rightarrow> nat list \<Rightarrow> 'o model_state \<Rightarrow>
   epoch_log list \<times> 'o model_state" where
  "spec_epochs opt model x_noisy x_clean v_noisy v_clean shuffle' ids [] st = ([], st)"
| "spec_epochs opt model x_noisy x_clean v_noisy v_clean shuffle' ids (epoch # epochs) st =
     (let shuffled = shuffle' epoch ids
      in case spec_steps opt model x_noisy x_clean (mini_batches 128 shuffled) st of
           (ls, st') \<Rightarrow>
             (case spec_epochs opt model x_noisy x_clean v_noisy v_clean shuffle' shuffled
                     epochs st' of
                (logs, st'') \<Rightarrow>
                  (\<lparr>batch_losses = ls,
                    val_loss =
                      (if shuffled = [] \<or> images_in v_clean = 0 then None
                       else Some (reconstruction_mse (model_weights st') model v_noisy
                                    v_clean [0..<images_in v_clean]))\<rparr> # logs,
                   st'')))"

definition spec_training ::
  "'o optimizer \<Rightarrow> layer \<Rightarrow> real ndarray \<Rightarrow> real ndarray \<Rightarrow> real ndarray \<Rightarrow> real ndarray \<Rightarrow>
   (nat \<Rightarrow> nat list \<Rightarrow> nat list) \<Rightarrow> 'o model_state \<Rightarrow> epoch_log list \<times> 'o model_state" where
  "spec_training opt model x_noisy x_clean v_noisy v_clean shuffle' st =
     spec_epochs opt model x_noisy x_clean v_noisy v_clean shuffle' [0..<images_in x_noisy]
       [0, 1] st"

section \<open>Properties\<close>

subsection \<open>Data preparation\<close>

lemma unat_byte_le: "unat (p :: 8 word) \<le> 255"
proof -
  have "unat p < 2 ^ LENGTH(8)" by (rule unsigned_less)
  then show ?thesis by simp
qed

lemma np_reshape_images:
  assumes "length (data x) = n * 784"
  shows "np_reshape x [- 1, 28, 28, 1] = Inr \<lparr>shape = [n, 28, 28, 1], data = data x\<rparr>"
  using assms by (simp add: np_reshape_def Let_def)

text \<open>
  Claim C3. For every batch of unsigned 8-bit images of shape (N,28,28), data preparation
  returns an array of shape (N,28,28,1) whose elements are the input's elements divided
  by 255, in the same order, and every element lies between 0 and 1.
\<close>

theorem data_preparation_scaled:
  assumes "well_shaped x" and "shape x = [n, 28, 28]"
  shows "\<exists>y. data_preparation x = Inr y \<and> shape y = [n, 28, 28, 1] \<and> well_shaped y \<and>
             data y = map (\<lambda>p. real (unat p) / 255) (data x) \<and>
             (\<forall>v \<in> set (data y). 0 \<le> v \<and> v \<le> 1)"
proof -
  from assms have len: "length (data x) = n * 784"
    by (simp add: well_shaped_def)
  have bound: "0 \<le> real (unat p) / 255 \<and> real (unat p) / 255 \<le> 1" for p :: "8 word"
  proof -
    have "real (unat p) \<le> real 255"
      using unat_byte_le [of p] by (rule of_nat_mono)
    then show ?thesis by (simp del: of_nat_unat)
  qed
  show ?thesis
    using len bound
    by (simp add: data_preparation_def image_size_def np_reshape_images np_true_divide_def
        well_shaped_def)
qed

theorem data_preparation_scaled_witness:
  "well_shaped \<lparr>shape = [1, 28, 28], data = replicate 784 (255 :: 8 word)\<rparr> \<and>
   (\<exists>y. data_preparation \<lparr>shape = [1, 28, 28], data = replicate 784 255\<rparr> = Inr y \<and>
        shape y = [1, 28, 28, 1] \<and> data y = replicate 784 1)"
proof -
  have w: "well_shaped \<lparr>shape = [1, 28, 28], data = replicate 784 (255 :: 8 word)\<rparr>"
    by (simp add: well_shaped_def)
  from data_preparation_scaled [OF w, of 1]
  obtain y where "data_preparation \<lparr>shape = [1, 28, 28], data = replicate 784 255\<rparr> = Inr y"
    and "shape y = [1, 28, 28, 1]"
    and "data y = map (\<lambda>p. real (unat p) / 255) (replicate 784 (255 :: 8 word))"
    by auto
  with w show ?thesis by simp
qed

subsection \<open>Noise injection\<close>

lemma lookup_bind_new_other:
  "v \<noteq> w \<Longrightarrow> lookup v s = Inr a \<Longrightarrow> lookup v (bind_new w b s) = Inr a"
  by (auto simp: lookup_def bind_new_def nth_append split: option.splits if_splits)

lemma lookup_bind_new_same: "lookup v (bind_new v b s) = Inr b"
  by (simp add: lookup_def bind_new_def)

lemma lookup_rng: "lookup v (s\<lparr>rng := r\<rparr>) = lookup v s"
  by (simp add: lookup_def split: option.splits)

lemma noise_injection_result:
  assumes "lookup ''x_train'' s = Inr xt" and "lookup ''x_test'' s = Inr xs"
  shows "noise_injection s =
     Inr \<lparr>heap = heap s @
             [\<lparr>shape = shape xt, data = map (\<lambda>i. 0.5 + 0.5 * rng s i) [0..<prod_list (shape xt)]\<rparr>,
              \<lparr>shape = shape xt, data = map (\<lambda>(u, v). u + v) (zip (data xt)
                   (map (\<lambda>i. 0.5 + 0.5 * rng s i) [0..<prod_list (shape xt)]))\<rparr>,
              \<lparr>shape = shape xs, data = map (\<lambda>i. 0.5 + 0.5 * rng s (prod_list (shape xt) + i))
                   [0..<prod_list (shape xs)]\<rparr>,
              \<lparr>shape = shape xs, data = map (\<lambda>(u, v). u + v) (zip (data xs)
                   (map (\<lambda>i. 0.5 + 0.5 * rng s (prod_list (shape xt) + i)) [0..<prod_list (shape xs)]))\<rparr>,
              noisy xt (rng s),
              noisy xs (\<lambda>i. rng s (prod_list (shape xt) + i))],
            vars = (vars s)(''noise'' \<mapsto> length (heap s) + 2,
                             ''x_train_noisy'' \<mapsto> length (heap s) + 4,
                             ''x_test_noisy'' \<mapsto> length (heap s) + 5),
            rng = (\<lambda>i. rng s (prod_list (shape xt) + (prod_list (shape xs) + i)))\<rparr>"
  using assms
  apply (simp add: noise_injection_def assign_random_normal_def assign_add_def assign_clip_def
      np_random_normal_def Let_def lookup_bind_new_other lookup_bind_new_same lookup_rng np_add_def np_clip_def noisy_def)
  apply (cases s)
  apply (simp add: bind_new_def)
  apply (auto simp: fun_eq_iff)
  done

lemma noisy_shape: "shape (noisy x z) = shape x"
  by (simp add: noisy_def)

lemma noisy_length: "well_shaped x \<Longrightarrow> length (data (noisy x z)) = length (data x)"
  by (simp add: noisy_def well_shaped_def)

lemma noisy_nth:
  assumes "well_shaped x" and "i < length (data x)"
  shows "data (noisy x z) ! i = min 1 (max (data x ! i + (0.5 + 0.5 * z i)) 0)"
  using assms by (simp add: noisy_def well_shaped_def)

lemma noisy_range: "v \<in> set (data (noisy x z)) \<Longrightarrow> 0 \<le> v \<and> v \<le> 1"
  by (auto simp: noisy_def)

text \<open>
  Claim C2. From any state in which \<open>x_train\<close> and \<open>x_test\<close> name arrays, and for every
  sequence of variates the generator may return, the noise cell ends without an error;
  \<open>x_train_noisy\<close> and \<open>x_test_noisy\<close> then name arrays of the shapes (and sizes) of the
  clean arrays, and every element of both lies between 0 and 1.
\<close>

theorem noise_injection_clipped:
  assumes "lookup ''x_train'' s = Inr xt" and "lookup ''x_test'' s = Inr xs"
    and "well_shaped xt" and "well_shaped xs"
  shows "\<exists>s' yt ys. noise_injection s = Inr s' \<and>
           lookup ''x_train_noisy'' s' = Inr yt \<and> lookup ''x_test_noisy'' s' = Inr ys \<and>
           shape yt = shape xt \<and> well_shaped yt \<and> shape ys = shape xs \<and> well_shaped ys \<and>
           (\<forall>v \<in> set (data yt). 0 \<le> v \<and> v \<le> 1) \<and> (\<forall>v \<in> set (data ys). 0 \<le> v \<and> v \<le> 1)"
proof -
  let ?yt = "noisy xt (rng s)" and ?ys = "noisy xs (\<lambda>i. rng s (prod_list (shape xt) + i))"
  note r = noise_injection_result [OF assms(1,2)]
  have "lookup ''x_train_noisy'' (projr (noise_injection s)) = Inr ?yt"
    and "lookup ''x_test_noisy'' (projr (noise_injection s)) = Inr ?ys"
    by (simp_all add: r lookup_def nth_append)
  moreover have "well_shaped ?yt" and "well_shaped ?ys"
    using assms(3,4) noisy_length [of xt] noisy_length [of xs]
    by (simp_all add: well_shaped_def noisy_shape)
  moreover have "noise_injection s = Inr (projr (noise_injection s))"
    by (simp add: r)
  ultimately show ?thesis
    using noisy_range by (metis noisy_shape)
qed

theorem noise_injection_clipped_witness:
  "lookup ''x_train''
     \<lparr>heap = [\<lparr>shape = [1, 2, 2, 1], data = [0, 1, 0.5, 0.25]\<rparr>, \<lparr>shape = [1, 1, 1, 1], data = [1]\<rparr>],
      vars = [''x_train'' \<mapsto> 0, ''x_test'' \<mapsto> 1],
      rng = (\<lambda>i. if even i then 1000000 else - 1000000)\<rparr> =
     Inr \<lparr>shape = [1, 2, 2, 1], data = [0, 1, 0.5, 0.25]\<rparr> \<and>
   (\<exists>s' yt ys.
      noise_injection
        \<lparr>heap = [\<lparr>shape = [1, 2, 2, 1], data = [0, 1, 0.5, 0.25]\<rparr>, \<lparr>shape = [1, 1, 1, 1], data = [1]\<rparr>],
         vars = [''x_train'' \<mapsto> 0, ''x_test'' \<mapsto> 1],
         rng = (\<lambda>i. if even i then 1000000 else - 1000000)\<rparr> = Inr s' \<and>
      lookup ''x_train_noisy'' s' = Inr yt \<and> lookup ''x_test_noisy'' s' = Inr ys \<and>
      shape yt = [1, 2, 2, 1] \<and> shape ys = [1, 1, 1, 1] \<and>
      (\<forall>v \<in> set (data yt). 0 \<le> v \<and> v \<le> 1) \<and> (\<forall>v \<in> set (data ys). 0 \<le> v \<and> v \<le> 1))"
proof -
  let ?xt = "\<lparr>shape = [1, 2, 2, 1], data = [0, 1, 0.5, 0.25 :: real]\<rparr>"
  let ?xs = "\<lparr>shape = [1, 1, 1, 1], data = [1 :: real]\<rparr>"
  let ?s = "\<lparr>heap = [?xt, ?xs], vars = [''x_train'' \<mapsto> 0, ''x_test'' \<mapsto> 1],
             rng = (\<lambda>i. if even i then 1000000 else - 1000000)\<rparr>"
  have a: "lookup ''x_train'' ?s = Inr ?xt" and b: "lookup ''x_test'' ?s = Inr ?xs"
    by (simp_all add: lookup_def)
  have c: "well_shaped ?xt" and d: "well_shaped ?xs"
    by (simp_all add: well_shaped_def)
  from noise_injection_clipped [OF a b c d]
  obtain s' yt ys where r: "noise_injection ?s = Inr s'"
    "lookup ''x_train_noisy'' s' = Inr yt" "lookup ''x_test_noisy'' s' = Inr ys"
    "shape yt = shape ?xt" "shape ys = shape ?xs"
    "\<forall>v \<in> set (data yt). 0 \<le> v \<and> v \<le> 1" "\<forall>v \<in> set (data ys). 0 \<le> v \<and> v \<le> 1"
    by blast
  from r(4,5) have sh: "shape yt = [1, 2, 2, 1]" "shape ys = [1, 1, 1, 1]"
    by simp_all
  show ?thesis
    using a r(1,2,3) sh r(6,7) by (intro conjI exI)
qed

text \<open>
  Claim C10. The noise cell leaves the clean arrays as they were: every array object that
  existed before the cell is unchanged, \<open>x_train\<close> and \<open>x_test\<close> still name the same
  objects with the same elements, the noisy arrays are new objects, and element \<open>i\<close> of a
  noisy array is computed from element \<open>i\<close> of its clean array and the \<open>i\<close>-th variate
  drawn for it.
\<close>

theorem noise_injection_frame:
  assumes "lookup ''x_train'' s = Inr xt" and "lookup ''x_test'' s = Inr xs"
    and "well_shaped xt" and "well_shaped xs"
  shows "\<exists>s' yt ys. noise_injection s = Inr s' \<and>
           take (length (heap s)) (heap s') = heap s \<and>
           vars s' ''x_train'' = vars s ''x_train'' \<and> vars s' ''x_test'' = vars s ''x_test'' \<and>
           lookup ''x_train'' s' = Inr xt \<and> lookup ''x_test'' s' = Inr xs \<and>
           vars s' ''x_train_noisy'' = Some (length (heap s) + 4) \<and>
           vars s' ''x_test_noisy'' = Some (length (heap s) + 5) \<and>
           lookup ''x_train_noisy'' s' = Inr yt \<and> lookup ''x_test_noisy'' s' = Inr ys \<and>
           length (data yt) = length (data xt) \<and> length (data ys) = length (data xs) \<and>
           (\<forall>i < length (data xt).
              data yt ! i = min 1 (max (data xt ! i + (0.5 + 0.5 * rng s i)) 0)) \<and>
           (\<forall>i < length (data xs).
              data ys ! i =
                min 1 (max (data xs ! i + (0.5 + 0.5 * rng s (length (data xt) + i))) 0))"
proof -
  let ?yt = "noisy xt (rng s)" and ?ys = "noisy xs (\<lambda>i. rng s (prod_list (shape xt) + i))"
  let ?s' = "projr (noise_injection s)"
  note r = noise_injection_result [OF assms(1,2)]
  have s': "noise_injection s = Inr ?s'"
    by (simp add: r)
  have heap': "take (length (heap s)) (heap ?s') = heap s"
    by (simp add: r)
  have vars': "vars ?s' ''x_train'' = vars s ''x_train''" "vars ?s' ''x_test'' = vars s ''x_test''"
    "vars ?s' ''x_train_noisy'' = Some (length (heap s) + 4)"
    "vars ?s' ''x_test_noisy'' = Some (length (heap s) + 5)"
    by (simp_all add: r)
  have clean: "lookup ''x_train'' ?s' = Inr xt" "lookup ''x_test'' ?s' = Inr xs"
    using assms(1,2)
    by (auto simp: r lookup_def nth_append split: option.splits if_splits)
  have noisy': "lookup ''x_train_noisy'' ?s' = Inr ?yt" "lookup ''x_test_noisy'' ?s' = Inr ?ys"
    by (simp_all add: r lookup_def nth_append)
  have len: "length (data ?yt) = length (data xt)" "length (data ?ys) = length (data xs)"
    using assms(3,4) by (simp_all add: noisy_length)
  have elt: "\<forall>i < length (data xt).
      data ?yt ! i = min 1 (max (data xt ! i + (0.5 + 0.5 * rng s i)) 0)"
    using assms(3) by (simp add: noisy_nth)
  have els: "\<forall>i < length (data xs).
      data ?ys ! i = min 1 (max (data xs ! i + (0.5 + 0.5 * rng s (length (data xt) + i))) 0)"
    using assms(3,4) by (simp add: noisy_nth well_shaped_def)
  show ?thesis
    using s' heap' vars' clean noisy' len elt els by blast
qed

theorem noise_injection_frame_witness:
  "lookup ''x_train''
     \<lparr>heap = [\<lparr>shape = [1, 2, 2, 1], data = [0, 1, 0.5, 0.25]\<rparr>, \<lparr>shape = [1, 1, 1, 1], data = [1]\<rparr>],
      vars = [''x_train'' \<mapsto> 0, ''x_test'' \<mapsto> 1],
      rng = (\<lambda>i. real i)\<rparr> =
     Inr \<lparr>shape = [1, 2, 2, 1], data = [0, 1, 0.5, 0.25]\<rparr> \<and>
   (\<exists>s'. noise_injection
        \<lparr>heap = [\<lparr>shape = [1, 2, 2, 1], data = [0, 1, 0.5, 0.25]\<rparr>, \<lparr>shape = [1, 1, 1, 1], data = [1]\<rparr>],
         vars = [''x_train'' \<mapsto> 0, ''x_test'' \<mapsto> 1],
         rng = (\<lambda>i. real i)\<rparr> = Inr s' \<and>
      take 2 (heap s') =
        [\<lparr>shape = [1, 2, 2, 1], data = [0, 1, 0.5, 0.25]\<rparr>, \<lparr>shape = [1, 1, 1, 1], data = [1]\<rparr>] \<and>
      vars s' ''x_train'' = Some 0 \<and> vars s' ''x_test'' = Some 1 \<and>
      vars s' ''x_train_noisy'' = Some 6 \<and> vars s' ''x_test_noisy'' = Some 7)"
proof -
  let ?xt = "\<lparr>shape = [1, 2, 2, 1], data = [0, 1, 0.5, 0.25 :: real]\<rparr>"
  let ?xs = "\<lparr>shape = [1, 1, 1, 1], data = [1 :: real]\<rparr>"
  let ?s = "\<lparr>heap = [?xt, ?xs], vars = [''x_train'' \<mapsto> 0, ''x_test'' \<mapsto> 1],
             rng = (\<lambda>i. real i)\<rparr>"
  have a: "lookup ''x_train'' ?s = Inr ?xt" and b: "lookup ''x_test'' ?s = Inr ?xs"
    by (simp_all add: lookup_def)
  have c: "well_shaped ?xt" and d: "well_shaped ?xs"
    by (simp_all add: well_shaped_def)
  from noise_injection_frame [OF a b c d]
  obtain s' where r: "noise_injection ?s = Inr s'"
    "take (length (heap ?s)) (heap s') = heap ?s"
    "vars s' ''x_train'' = vars ?s ''x_train''" "vars s' ''x_test'' = vars ?s ''x_test''"
    "vars s' ''x_train_noisy'' = Some (length (heap ?s) + 4)"
    "vars s' ''x_test_noisy'' = Some (length (heap ?s) + 5)"
    by blast
  from r(2-6) have v: "take 2 (heap s') = [?xt, ?xs]"
    "vars s' ''x_train'' = Some 0" "vars s' ''x_test'' = Some 1"
    "vars s' ''x_train_noisy'' = Some 6" "vars s' ''x_test_noisy'' = Some 7"
    by (simp_all add: numeral_2_eq_2)
  show ?thesis
    using a r(1) v by (intro conjI exI)
qed

subsection \<open>The models and their shapes\<close>


lemma length_comprehension3:
  "length [f a b c. a \<leftarrow> [0..<A], b \<leftarrow> [0..<B], c \<leftarrow> [0..<C]] = A * B * C"
  by (simp add: length_concat o_def sum_list_triv)

lemma conv2d_shape:
  assumes "shape x = [h, w, c]" and "conv_shape False filters k st p h w = Inr (oh, ow, f)"
  shows "\<exists>y. conv2d kb filters k st p a x = Inr y \<and> shape y = [oh, ow, f] \<and>
             length (data y) = oh * ow * f"
  using assms by (simp add: conv2d_def Let_def length_comprehension3)

lemma conv2d_transpose_shape:
  assumes "shape x = [h, w, c]" and "conv_shape True filters k st p h w = Inr (oh, ow, f)"
  shows "\<exists>y. conv2d_transpose kb filters k st p a x = Inr y \<and> shape y = [oh, ow, f] \<and>
             length (data y) = oh * ow * f"
  using assms by (simp add: conv2d_transpose_def Let_def length_comprehension3)

lemma dense_shape:
  assumes "shape x = [n]"
  shows "dense kb units a x =
           Inr \<lparr>shape = [units],
                data = map (\<lambda>j. activate a (item (snd kb) j +
                         sum_list (map (\<lambda>i. item (data x) i * item (fst kb) (i * units + j)) [0..<n])))
                       [0..<units]\<rparr>"
  using assms by (simp add: dense_def Let_def)

lemma encoder_convolutions_eq:
  "encoder_convolutions =
     Inr \<lparr>tshape = [None, Some 7, Some 7, Some 64], origin = ''encoder_input'',
          history = [Conv2D ''conv2d_1'' 32 3 (Some 2) (Some relu) same,
                     Conv2D ''conv2d_2'' 64 3 (Some 2) (Some relu) same]\<rparr>"
  by (simp add: encoder_convolutions_def inputs_def Input_def input_shape_def image_size_def
      kernel_size_def apply_layer_def conv_shape_def strides_of_def conv_output_length_def)

lemma encoder_eq:
  "encoder =
     Inr (Model ''encoder'' [None, Some 28, Some 28, Some 1]
            [Conv2D ''conv2d_1'' 32 3 (Some 2) (Some relu) same,
             Conv2D ''conv2d_2'' 64 3 (Some 2) (Some relu) same,
             Flatten,
             Dense ''latent_vector'' 16 None])"
  by (simp add: encoder_def encoder_convolutions_eq apply_layer_def defined_dims_def
      make_model_def latent_dim_def inputs_def Input_def input_shape_def image_size_def)

lemma decoder_eq:
  "decoder =
     Inr (Model ''decoder'' [None, Some 16]
            [Dense ''dense_1'' 3136 None,
             Reshape [7, 7, 64],
             Conv2DTranspose ''conv2d_transpose_1'' 64 3 (Some 2) (Some relu) same,
             Conv2DTranspose ''conv2d_transpose_2'' 32 3 (Some 2) (Some relu) same,
             Conv2DTranspose ''conv2d_transpose_3'' 1 3 None None same,
             Activation ''decoder_output'' sigmoid])"
  by (simp add: decoder_def shape_before_flatten_def encoder_convolutions_eq dim_def
      decoder_layers_def latent_inputs_def Input_def latent_dim_def kernel_size_def
      apply_layer_def defined_dims_def conv_shape_def strides_of_def deconv_length_def
      make_model_def)

lemma autoencoder_eq:
  "autoencoder =
     Inr (Model ''autoencoder'' [None, Some 28, Some 28, Some 1]
            [projr encoder, projr decoder])"
  by (simp add: autoencoder_def encoder_eq decoder_eq inputs_def Input_def input_shape_def
      image_size_def apply_layer_def defined_dims_def conv_shape_def strides_of_def
      conv_output_length_def deconv_length_def make_model_def)

lemma encoder_front:
  assumes "shape x = [28, 28, 1]"
  shows "\<exists>y1 y2. call ws (Conv2D ''conv2d_1'' 32 3 (Some 2) (Some relu) same) x = Inr y1 \<and>
           shape y1 = [14, 14, 32] \<and> length (data y1) = 6272 \<and>
           call ws (Conv2D ''conv2d_2'' 64 3 (Some 2) (Some relu) same) y1 = Inr y2 \<and>
           shape y2 = [7, 7, 64] \<and> length (data y2) = 3136"
proof -
  have s1: "conv_shape False 32 3 2 same 28 28 = Inr (14, 14, 32)"
    by (simp add: conv_shape_def conv_output_length_def)
  have s2: "conv_shape False 64 3 2 same 14 14 = Inr (7, 7, 64)"
    by (simp add: conv_shape_def conv_output_length_def)
  from conv2d_shape [OF assms s1, of "ws ''conv2d_1''" "Some relu"]
  obtain y1 where y1: "conv2d (ws ''conv2d_1'') 32 3 2 same (Some relu) x = Inr y1"
    "shape y1 = [14, 14, 32]" "length (data y1) = 14 * 14 * 32"
    by blast
  from conv2d_shape [OF y1(2) s2, of "ws ''conv2d_2''" "Some relu"]
  obtain y2 where y2: "conv2d (ws ''conv2d_2'') 64 3 2 same (Some relu) y1 = Inr y2"
    "shape y2 = [7, 7, 64]" "length (data y2) = 7 * 7 * 64"
    by blast
  from y1 y2 show ?thesis
    by (simp add: strides_of_def)
qed

lemma encoder_call:
  assumes "shape x = [28, 28, 1]"
  shows "\<exists>h. call_all ws [Conv2D ''conv2d_1'' 32 3 (Some 2) (Some relu) same,
                         Conv2D ''conv2d_2'' 64 3 (Some 2) (Some relu) same, Flatten] x = Inr h \<and>
             shape h = [3136] \<and> length (data h) = 3136 \<and>
             call ws (projr encoder) x =
               Inr \<lparr>shape = [16],
                    data = map (\<lambda>j. item (snd (ws ''latent_vector'')) j +
                             sum_list (map (\<lambda>i. item (data h) i *
                                                 item (fst (ws ''latent_vector'')) (i * 16 + j))
                                        [0..<3136]))
                           [0..<16]\<rparr>"
proof -
  from encoder_front [OF assms, of ws]
  obtain y1 y2 where y: "call ws (Conv2D ''conv2d_1'' 32 3 (Some 2) (Some relu) same) x = Inr y1"
    "call ws (Conv2D ''conv2d_2'' 64 3 (Some 2) (Some relu) same) y1 = Inr y2"
    "shape y2 = [7, 7, 64]" "length (data y2) = 3136"
    by blast
  let ?h = "\<lparr>shape = [3136], data = data y2\<rparr>"
  have front: "call_all ws [Conv2D ''conv2d_1'' 32 3 (Some 2) (Some relu) same,
                         Conv2D ''conv2d_2'' 64 3 (Some 2) (Some relu) same, Flatten] x = Inr ?h"
    using y by simp
  have d: "dense (ws ''latent_vector'') 16 None ?h =
      Inr \<lparr>shape = [16],
           data = map (\<lambda>j. item (snd (ws ''latent_vector'')) j +
                             sum_list (map (\<lambda>i. item (data ?h) i *
                                                 item (fst (ws ''latent_vector'')) (i * 16 + j))
                                        [0..<3136]))
                           [0..<16]\<rparr>"
    by (simp add: dense_shape activate_def)
  have "call ws (projr encoder) x =
      (case dense (ws ''latent_vector'') 16 None ?h of Inl e \<Rightarrow> Inl e | Inr z \<Rightarrow> Inr z)"
    using y assms by (simp add: encoder_eq cong: sum.case_cong)
  with d front y(4) show ?thesis
    by (intro exI [of _ ?h]) simp
qed

lemma sigmoid_range: "0 \<le> activate (Some sigmoid) v \<and> activate (Some sigmoid) v \<le> 1"
proof -
  have "0 < exp (- v)" by simp
  then show ?thesis by (simp add: activate_def add_pos_pos)
qed

lemma decoder_call:
  assumes "shape z = [16]"
  shows "\<exists>y. call ws (projr decoder) z = Inr y \<and> shape y = [28, 28, 1] \<and>
             length (data y) = 784 \<and> (\<forall>v \<in> set (data y). 0 \<le> v \<and> v \<le> 1)"
proof -
  let ?d = "dense (ws ''dense_1'') 3136 None z"
  obtain h where h: "?d = Inr h" "shape h = [3136]"
    using dense_shape [OF assms, of "ws ''dense_1''" 3136 None] by simp
  let ?r = "\<lparr>shape = [7, 7, 64], data = data h\<rparr>"
  have s1: "conv_shape True 64 3 2 same 7 7 = Inr (14, 14, 64)"
    by (simp add: conv_shape_def deconv_length_def)
  have s2: "conv_shape True 32 3 2 same 14 14 = Inr (28, 28, 32)"
    by (simp add: conv_shape_def deconv_length_def)
  have s3: "conv_shape True 1 3 1 same 28 28 = Inr (28, 28, 1)"
    by (simp add: conv_shape_def deconv_length_def)
  have r: "shape ?r = [7, 7, 64]" by simp
  from conv2d_transpose_shape [OF r s1, of "ws ''conv2d_transpose_1''" "Some relu"]
  obtain y1 where y1: "conv2d_transpose (ws ''conv2d_transpose_1'') 64 3 2 same (Some relu) ?r = Inr y1"
    "shape y1 = [14, 14, 64]"
    by blast
  from conv2d_transpose_shape [OF y1(2) s2, of "ws ''conv2d_transpose_2''" "Some relu"]
  obtain y2 where y2: "conv2d_transpose (ws ''conv2d_transpose_2'') 32 3 2 same (Some relu) y1 = Inr y2"
    "shape y2 = [28, 28, 32]"
    by blast
  from conv2d_transpose_shape [OF y2(2) s3, of "ws ''conv2d_transpose_3''" None]
  obtain y3 where y3: "conv2d_transpose (ws ''conv2d_transpose_3'') 1 3 1 same None y2 = Inr y3"
    "shape y3 = [28, 28, 1]" "length (data y3) = 28 * 28 * 1"
    by blast
  let ?y = "\<lparr>shape = shape y3, data = map (activate (Some sigmoid)) (data y3)\<rparr>"
  have "call ws (projr decoder) z = Inr ?y"
    using assms h y1 y2 y3 by (simp add: decoder_eq strides_of_def)
  moreover have "\<forall>v \<in> set (data ?y). 0 \<le> v \<and> v \<le> 1"
    using sigmoid_range by auto
  ultimately show ?thesis
    using y3 by (intro exI [of _ ?y]) simp
qed



text \<open>
  Claim C4. The encoder ends with the dense layer \<open>latent_vector\<close> of \<open>latent_dim = 16\<close>
  units, built without an activation. On every image of shape (28,28,1), with any weights,
  it returns a vector of exactly 16 elements, each the bias plus the weighted sum of the
  flattened features: no activation is applied.
\<close>

theorem encoder_latent_vector:
  "\<exists>enc front.
     encoder = Inr enc \<and>
     enc = Model ''encoder'' (None # map Some input_shape)
             (front @ [Dense ''latent_vector'' latent_dim None]) \<and>
     latent_dim = 16 \<and> (\<forall>v. activate None v = v) \<and>
     (\<forall>ws x. shape x = input_shape \<longrightarrow>
        (\<exists>h z. call_all ws front x = Inr h \<and> call ws enc x = Inr z \<and>
           shape z = [latent_dim] \<and> length (data z) = latent_dim \<and>
           data z =
             map (\<lambda>j. item (snd (ws ''latent_vector'')) j +
                      sum_list (map (\<lambda>i. item (data h) i *
                                          item (fst (ws ''latent_vector'')) (i * latent_dim + j))
                                 [0..<length (data h)]))
               [0..<latent_dim]))"
proof -
  let ?front = "[Conv2D ''conv2d_1'' 32 3 (Some 2) (Some relu) same,
                 Conv2D ''conv2d_2'' 64 3 (Some 2) (Some relu) same, Flatten]"
  have e: "encoder = Inr (projr encoder)"
    "projr encoder = Model ''encoder'' (None # map Some input_shape)
             (?front @ [Dense ''latent_vector'' latent_dim None])"
    by (simp_all add: encoder_eq input_shape_def image_size_def latent_dim_def)
  have "\<exists>h z. call_all ws ?front x = Inr h \<and> call ws (projr encoder) x = Inr z \<and>
           shape z = [latent_dim] \<and> length (data z) = latent_dim \<and>
           data z =
             map (\<lambda>j. item (snd (ws ''latent_vector'')) j +
                      sum_list (map (\<lambda>i. item (data h) i *
                                          item (fst (ws ''latent_vector'')) (i * latent_dim + j))
                                 [0..<length (data h)]))
               [0..<latent_dim]"
    if "shape x = input_shape" for ws x
  proof -
    from that have "shape x = [28, 28, 1]"
      by (simp add: input_shape_def image_size_def)
    from encoder_call [OF this, of ws]
    obtain h where h: "call_all ws ?front x = Inr h" "length (data h) = 3136"
      "call ws (projr encoder) x =
               Inr \<lparr>shape = [16],
                    data = map (\<lambda>j. item (snd (ws ''latent_vector'')) j +
                             sum_list (map (\<lambda>i. item (data h) i *
                                                 item (fst (ws ''latent_vector'')) (i * 16 + j))
                                        [0..<3136]))
                           [0..<16]\<rparr>"
      by blast
    then show ?thesis
      by (simp add: latent_dim_def)
  qed
  moreover have "latent_dim = 16" "\<forall>v. activate None v = v"
    by (simp_all add: latent_dim_def activate_def)
  ultimately show ?thesis
    using e by blast
qed

theorem encoder_latent_vector_witness:
  "shape \<lparr>shape = [28, 28, 1], data = replicate 784 (0 :: real)\<rparr> = input_shape \<and>
   (\<exists>enc. encoder = Inr enc \<and>
      call (\<lambda>nm. ([], [])) enc \<lparr>shape = [28, 28, 1], data = replicate 784 0\<rparr> =
        Inr \<lparr>shape = [16], data = replicate 16 0\<rparr>)"
proof -
  let ?x = "\<lparr>shape = [28, 28, 1], data = replicate 784 (0 :: real)\<rparr>"
  let ?ws = "(\<lambda>nm. ([], [])) :: weights"
  have a: "shape ?x = input_shape"
    by (simp add: input_shape_def image_size_def)
  from encoder_latent_vector a
  obtain enc front h z where r: "encoder = Inr enc" "call_all ?ws front ?x = Inr h"
    "call ?ws enc ?x = Inr z" "shape z = [latent_dim]"
    "data z =
       map (\<lambda>j. item (snd (?ws ''latent_vector'')) j +
                sum_list (map (\<lambda>i. item (data h) i *
                                    item (fst (?ws ''latent_vector'')) (i * latent_dim + j))
                           [0..<length (data h)]))
         [0..<latent_dim]"
    by blast
  from r(5) have "data z = replicate 16 0"
    by (simp add: item_def latent_dim_def map_replicate_const sum_list_replicate)
  with r(4) have "z = \<lparr>shape = [16], data = replicate 16 0\<rparr>"
    by (simp add: latent_dim_def)
  with a r(1,3) show ?thesis
    by blast
qed

text \<open>
  Claim C5. The decoder ends with a transposed convolution of 1 filter, kernel 3, default
  stride 1 and \<^verbatim>\<open>same\<close> padding, followed by a sigmoid activation. On every latent vector
  of 16 elements, with any weights, it returns an image of shape (28,28,1) whose 784
  elements all lie between 0 and 1; encoding an image and decoding the result keeps the
  image's shape.
\<close>

theorem decoder_output_image:
  "\<exists>enc dec front.
     encoder = Inr enc \<and> decoder = Inr dec \<and>
     dec = Model ''decoder'' [None, Some latent_dim]
             (front @ [Conv2DTranspose ''conv2d_transpose_3'' 1 kernel_size None None same,
                       Activation ''decoder_output'' sigmoid]) \<and>
     kernel_size = 3 \<and> strides_of None = 1 \<and>
     (\<forall>ws z. shape z = [latent_dim] \<longrightarrow>
        (\<exists>y. call ws dec z = Inr y \<and> shape y = [28, 28, 1] \<and> length (data y) = 784 \<and>
           (\<forall>v \<in> set (data y). 0 \<le> v \<and> v \<le> 1))) \<and>
     (\<forall>ws x. shape x = [28, 28, 1] \<longrightarrow>
        (\<exists>z y. call ws enc x = Inr z \<and> call ws dec z = Inr y \<and> shape y = shape x))"
proof -
  let ?front = "[Dense ''dense_1'' 3136 None, Reshape [7, 7, 64],
                 Conv2DTranspose ''conv2d_transpose_1'' 64 3 (Some 2) (Some relu) same,
                 Conv2DTranspose ''conv2d_transpose_2'' 32 3 (Some 2) (Some relu) same]"
  have e: "encoder = Inr (projr encoder)" "decoder = Inr (projr decoder)"
    "projr decoder = Model ''decoder'' [None, Some latent_dim]
             (?front @ [Conv2DTranspose ''conv2d_transpose_3'' 1 kernel_size None None same,
                       Activation ''decoder_output'' sigmoid])"
    "kernel_size = 3" "strides_of None = 1"
    by (simp_all add: encoder_eq decoder_eq latent_dim_def kernel_size_def strides_of_def)
  have d: "\<exists>y. call ws (projr decoder) z = Inr y \<and> shape y = [28, 28, 1] \<and>
      length (data y) = 784 \<and> (\<forall>v \<in> set (data y). 0 \<le> v \<and> v \<le> 1)"
    if "shape z = [latent_dim]" for ws z
    using that decoder_call [of z ws] by (simp add: latent_dim_def)
  have "\<exists>z y. call ws (projr encoder) x = Inr z \<and> call ws (projr decoder) z = Inr y \<and>
      shape y = shape x"
    if x: "shape x = [28, 28, 1]" for ws x
  proof -
    from encoder_call [OF x, of ws]
    obtain z where z: "call ws (projr encoder) x = Inr z" "shape z = [16]"
      by force
    from decoder_call [OF z(2), of ws] z(1) x show ?thesis
      by auto
  qed
  with d e show ?thesis
    by blast
qed

theorem decoder_output_image_witness:
  "shape \<lparr>shape = [16], data = replicate 16 (0 :: real)\<rparr> = [latent_dim] \<and>
   shape \<lparr>shape = [28, 28, 1], data = replicate 784 (0 :: real)\<rparr> = [28, 28, 1] \<and>
   (\<exists>enc dec y z y'.
      encoder = Inr enc \<and> decoder = Inr dec \<and>
      call (\<lambda>nm. ([], [])) dec \<lparr>shape = [16], data = replicate 16 0\<rparr> = Inr y \<and>
      shape y = [28, 28, 1] \<and> length (data y) = 784 \<and>
      call (\<lambda>nm. ([], [])) enc \<lparr>shape = [28, 28, 1], data = replicate 784 0\<rparr> = Inr z \<and>
      call (\<lambda>nm. ([], [])) dec z = Inr y' \<and> shape y' = [28, 28, 1])"
proof -
  let ?z = "\<lparr>shape = [16], data = replicate 16 (0 :: real)\<rparr>"
  let ?x = "\<lparr>shape = [28, 28, 1], data = replicate 784 (0 :: real)\<rparr>"
  let ?ws = "(\<lambda>nm. ([], [])) :: weights"
  have a: "shape ?z = [latent_dim]" and b: "shape ?x = [28, 28, 1]"
    by (simp_all add: latent_dim_def)
  from decoder_output_image
  obtain enc dec where r: "encoder = Inr enc" "decoder = Inr dec"
    "\<forall>ws z. shape z = [latent_dim] \<longrightarrow>
        (\<exists>y. call ws dec z = Inr y \<and> shape y = [28, 28, 1] \<and> length (data y) = 784 \<and>
           (\<forall>v \<in> set (data y). 0 \<le> v \<and> v \<le> 1))"
    "\<forall>ws x. shape x = [28, 28, 1] \<longrightarrow>
        (\<exists>z y. call ws enc x = Inr z \<and> call ws dec z = Inr y \<and> shape y = shape x)"
    by blast
  from r(3) a obtain y where y: "call ?ws dec ?z = Inr y" "shape y = [28, 28, 1]"
    "length (data y) = 784"
    by blast
  from r(4) b obtain z y' where z: "call ?ws enc ?x = Inr z" "call ?ws dec z = Inr y'"
    "shape y' = shape ?x"
    by blast
  from z(3) have "shape y' = [28, 28, 1]"
    by simp
  with a b r(1,2) y z(1,2) show ?thesis
    by blast
qed

lemma call_weights_cong:
  "(\<forall>nm \<in> set (weight_names l). ws nm = ws' nm) \<Longrightarrow> call ws l x = call ws' l x"
  "(\<forall>nm \<in> set (concat (map weight_names ls)). ws nm = ws' nm) \<Longrightarrow>
     call_all ws ls x = call_all ws' ls x"
proof (induction ws l x and ws ls x rule: call_call_all.induct)
  case (9 ws l ls x)
  then show ?case
    by (auto split: sum.splits)
qed simp_all

text \<open>
  Claim C1. The autoencoder is the model whose layers are the encoder and the decoder
  themselves. It reads weights under the names the encoder and the decoder read them, from
  the same store, and under no other name: it has no weights of its own. On every image of
  shape (28,28,1), for every store of weights, its result is the decoder's result on the
  encoder's result.
\<close>

theorem autoencoder_composition:
  "\<exists>enc dec ae.
     encoder = Inr enc \<and> decoder = Inr dec \<and> autoencoder = Inr ae \<and>
     ae = Model ''autoencoder'' (None # map Some input_shape) [enc, dec] \<and>
     weight_names ae = weight_names enc @ weight_names dec \<and>
     (\<forall>ws ws' x. (\<forall>nm \<in> set (weight_names enc @ weight_names dec). ws nm = ws' nm) \<longrightarrow>
        call ws ae x = call ws' ae x) \<and>
     (\<forall>ws x. shape x = input_shape \<longrightarrow>
        (\<exists>z y. call ws enc x = Inr z \<and> call ws dec z = Inr y \<and> call ws ae x = Inr y))"
proof -
  have e: "encoder = Inr (projr encoder)" "decoder = Inr (projr decoder)"
    "autoencoder = Inr (projr autoencoder)"
    "projr autoencoder =
       Model ''autoencoder'' (None # map Some input_shape) [projr encoder, projr decoder]"
    by (simp_all add: encoder_eq decoder_eq autoencoder_eq input_shape_def image_size_def)
  have n: "weight_names (projr autoencoder) =
      weight_names (projr encoder) @ weight_names (projr decoder)"
    by (simp add: e(4))
  have w: "\<forall>ws ws' x.
      (\<forall>nm \<in> set (weight_names (projr encoder) @ weight_names (projr decoder)). ws nm = ws' nm) \<longrightarrow>
        call ws (projr autoencoder) x = call ws' (projr autoencoder) x"
  proof (intro allI impI)
    fix ws ws' :: weights and x :: "real ndarray"
    assume "\<forall>nm \<in> set (weight_names (projr encoder) @ weight_names (projr decoder)).
        ws nm = ws' nm"
    then have "\<forall>nm \<in> set (weight_names (projr autoencoder)). ws nm = ws' nm"
      by (simp only: n)
    then show "call ws (projr autoencoder) x = call ws' (projr autoencoder) x"
      by (rule call_weights_cong(1))
  qed
  have c: "\<forall>ws x. shape x = input_shape \<longrightarrow>
      (\<exists>z y. call ws (projr encoder) x = Inr z \<and> call ws (projr decoder) z = Inr y \<and>
         call ws (projr autoencoder) x = Inr y)"
  proof (intro allI impI)
    fix ws :: weights and x :: "real ndarray"
    assume a: "shape x = input_shape"
    then have x: "shape x = [28, 28, 1]"
      by (simp add: input_shape_def image_size_def)
    from encoder_call [OF x, of ws]
    obtain z where z: "call ws (projr encoder) x = Inr z" "shape z = [16]"
      by force
    from decoder_call [OF z(2), of ws]
    obtain y where y: "call ws (projr decoder) z = Inr y"
      by blast
    have "call ws (projr autoencoder) x = Inr y"
      using a z(1) y by (simp add: e(4))
    with z(1) y
    show "\<exists>z y. call ws (projr encoder) x = Inr z \<and> call ws (projr decoder) z = Inr y \<and>
        call ws (projr autoencoder) x = Inr y"
      by blast
  qed
  from e n w c show ?thesis
    by - (rule exI [of _ "projr encoder"], rule exI [of _ "projr decoder"],
        rule exI [of _ "projr autoencoder"], intro conjI, assumption+)
qed

theorem autoencoder_composition_witness:
  "shape \<lparr>shape = [28, 28, 1], data = replicate 784 (0 :: real)\<rparr> = input_shape \<and>
   (\<exists>enc dec ae z y.
      encoder = Inr enc \<and> decoder = Inr dec \<and> autoencoder = Inr ae \<and>
      call (\<lambda>nm. ([], [])) enc \<lparr>shape = [28, 28, 1], data = replicate 784 0\<rparr> = Inr z \<and>
      call (\<lambda>nm. ([], [])) dec z = Inr y \<and>
      call (\<lambda>nm. ([], [])) ae \<lparr>shape = [28, 28, 1], data = replicate 784 0\<rparr> = Inr y)"
proof -
  let ?x = "\<lparr>shape = [28, 28, 1], data = replicate 784 (0 :: real)\<rparr>"
  let ?ws = "(\<lambda>nm. ([], [])) :: weights"
  have a: "shape ?x = input_shape"
    by (simp add: input_shape_def image_size_def)
  from autoencoder_composition
  obtain enc dec ae where r: "encoder = Inr enc" "decoder = Inr dec" "autoencoder = Inr ae"
    "\<forall>ws x. shape x = input_shape \<longrightarrow>
        (\<exists>z y. call ws enc x = Inr z \<and> call ws dec z = Inr y \<and> call ws ae x = Inr y)"
    by blast
  from r(4) a obtain z y where "call ?ws enc ?x = Inr z" "call ?ws dec z = Inr y"
    "call ?ws ae ?x = Inr y"
    by blast
  with a r(1,2,3) show ?thesis
    by blast
qed

subsection \<open>Training\<close>

lemma autoencoder_call:
  assumes "shape x = [28, 28, 1]"
  shows "\<exists>y. call ws (projr autoencoder) x = Inr y \<and> shape y = [28, 28, 1] \<and>
             length (data y) = 784 \<and> (\<forall>v \<in> set (data y). 0 \<le> v \<and> v \<le> 1)"
proof -
  from encoder_call [OF assms, of ws]
  obtain z where z: "call ws (projr encoder) x = Inr z" "shape z = [16]"
    by force
  from decoder_call [OF z(2), of ws]
  obtain y where y: "call ws (projr decoder) z = Inr y" "shape y = [28, 28, 1]"
    "length (data y) = 784" "\<forall>v \<in> set (data y). 0 \<le> v \<and> v \<le> 1"
    by blast
  have "call ws (projr autoencoder) x = Inr y"
    using assms z(1) y(1) by (simp add: autoencoder_eq)
  with y show ?thesis
    by blast
qed

lemma make_batches_bounds:
  assumes "0 < bs" and "(a, b) \<in> set (make_batches n bs)"
  shows "a < b \<and> b \<le> n \<and> b - a \<le> bs"
proof -
  from assms(2) obtain i where i: "i < (n + bs - 1) div bs" "a = i * bs"
    "b = min n ((i + 1) * bs)"
    by (auto simp: make_batches_def)
  from i(1) have "Suc i \<le> (n + bs - 1) div bs"
    by simp
  then have "Suc i * bs \<le> (n + bs - 1) div bs * bs"
    by (rule mult_le_mono1)
  also have "\<dots> \<le> n + bs - 1"
    by simp
  finally have "i * bs < n"
    using assms(1) by simp
  with i(2,3) assms(1) show ?thesis
    by (auto simp: min_def algebra_simps)
qed

lemma slice_length:
  assumes "length d = n * p" and "i < n"
  shows "length (take p (drop (i * p) d)) = p"
proof -
  from assms(2) have "Suc i * p \<le> n * p"
    by (intro mult_le_mono1) simp
  with assms(1) show ?thesis
    by simp
qed

lemma make_batches_nonempty:
  assumes "0 < bs" and "0 < n"
  shows "make_batches n bs \<noteq> []"
proof -
  from assms have "bs \<le> n + bs - 1"
    by simp
  with assms(1) have "0 < (n + bs - 1) div bs"
    by (simp add: div_greater_zero_iff)
  then show ?thesis
    by (simp add: make_batches_def)
qed

lemma take_drop_concat:
  assumes "\<forall>xs \<in> set xss. length xs = p" and "j < length xss"
  shows "take p (drop (j * p) (concat xss)) = xss ! j"
  using assms
proof (induction xss arbitrary: j)
  case Nil
  then show ?case by simp
next
  case (Cons xs xss)
  then show ?case
    by (cases j) simp_all
qed

lemma image_at_eq:
  assumes "shape x = n # ds"
  shows "image_at x i = \<lparr>shape = ds, data = take (prod_list ds) (drop (i * prod_list ds) (data x))\<rparr>"
  using assms by (simp add: image_at_def)

lemma image_at_length:
  assumes "shape x = n # ds" and "well_shaped x" and "i < n"
  shows "length (data (image_at x i)) = prod_list ds"
proof -
  from assms(1,2) have "length (data x) = n * prod_list ds"
    by (simp add: well_shaped_def)
  from slice_length [OF this assms(3)] show ?thesis
    by (simp add: image_at_eq [OF assms(1)])
qed

lemma gather_images:
  assumes "shape x = n # ds" and "\<forall>i \<in> set ids. i < n"
  shows "gather x ids =
           Inr \<lparr>shape = length ids # ds, data = concat (map (\<lambda>i. data (image_at x i)) ids)\<rparr>"
  using assms by (simp add: gather_def list_all_iff image_at_eq [OF assms(1)])

lemma samples_gather:
  assumes "shape x = n # ds" and "well_shaped x" and "\<forall>i \<in> set ids. i < n"
  shows "samples \<lparr>shape = length ids # ds, data = concat (map (\<lambda>i. data (image_at x i)) ids)\<rparr> =
           map (image_at x) ids"
proof -
  let ?p = "prod_list ds"
  let ?pieces = "map (\<lambda>i. data (image_at x i)) ids"
  have len: "\<forall>xs \<in> set ?pieces. length xs = ?p"
    using assms image_at_length [OF assms(1,2)] by auto
  have "take ?p (drop (j * ?p) (concat ?pieces)) = data (image_at x (ids ! j))"
    if "j < length ids" for j
    using take_drop_concat [OF len, of j] that by simp
  moreover have "shape (image_at x i) = ds" for i
    by (simp add: image_at_eq [OF assms(1)])
  ultimately show ?thesis
    by (intro nth_equalityI) (simp_all add: samples_def)
qed

lemma call_reconstruction:
  assumes "shape x = [28, 28, 1]"
  shows "call ws (projr autoencoder) x =
           Inr \<lparr>shape = [28, 28, 1], data = reconstruction ws (projr autoencoder) x\<rparr>"
    and "length (reconstruction ws (projr autoencoder) x) = 784"
proof -
  from autoencoder_call [OF assms, of ws]
  obtain y where y: "call ws (projr autoencoder) x = Inr y" "shape y = [28, 28, 1]"
    "length (data y) = 784"
    by blast
  from y(2) have "y = \<lparr>shape = [28, 28, 1], data = data y\<rparr>"
    by (cases y) simp
  with y(1) show "call ws (projr autoencoder) x =
      Inr \<lparr>shape = [28, 28, 1], data = reconstruction ws (projr autoencoder) x\<rparr>"
    by (simp add: reconstruction_def)
  from y(1,3) show "length (reconstruction ws (projr autoencoder) x) = 784"
    by (simp add: reconstruction_def)
qed

lemma call_each_reconstruction:
  assumes "\<forall>x \<in> set xs. shape x = [28, 28, 1]"
  shows "call_each ws (projr autoencoder) xs =
           Inr (map (\<lambda>x. \<lparr>shape = [28, 28, 1],
                           data = reconstruction ws (projr autoencoder) x\<rparr>) xs)"
  using assms by (induction xs) (simp_all add: call_reconstruction(1))

lemma call_batch_gather:
  assumes "shape x = n # [28, 28, 1]" and "well_shaped x" and "\<forall>i \<in> set ids. i < n"
    and "ids \<noteq> []"
  shows "call_batch ws (projr autoencoder)
           \<lparr>shape = length ids # [28, 28, 1], data = concat (map (\<lambda>i. data (image_at x i)) ids)\<rparr> =
         Inr \<lparr>shape = length ids # [28, 28, 1],
              data = concat (map (\<lambda>i. reconstruction ws (projr autoencoder) (image_at x i)) ids)\<rparr>"
proof -
  let ?xb = "\<lparr>shape = length ids # [28, 28, 1], data = concat (map (\<lambda>i. data (image_at x i)) ids)\<rparr>"
  let ?f = "\<lambda>a. \<lparr>shape = [28, 28, 1], data = reconstruction ws (projr autoencoder) a\<rparr>"
  have sh: "\<forall>a \<in> set (map (image_at x) ids). shape a = [28, 28, 1]"
    by (simp add: image_at_eq [OF assms(1)])
  have s: "samples ?xb = map (image_at x) ids"
    by (rule samples_gather [OF assms(1,2,3)])
  have ce: "call_each ws (projr autoencoder) (samples ?xb) = Inr (map ?f (map (image_at x) ids))"
    unfolding s by (rule call_each_reconstruction [OF sh])
  have st: "stack (map ?f (map (image_at x) ids)) =
      \<lparr>shape = length ids # [28, 28, 1],
       data = concat (map (\<lambda>i. reconstruction ws (projr autoencoder) (image_at x i)) ids)\<rparr>"
    using assms(4) by (cases ids) (simp_all add: stack_def o_def)
  show ?thesis
    using ce st by (simp add: call_batch_def)
qed

lemma sum_list_concat_map:
  "sum_list (map f (concat (map Z ids))) = sum_list (map (\<lambda>i. sum_list (map f (Z i))) ids)"
  by (induction ids) simp_all

lemma zip_concat_map:
  assumes "\<forall>i \<in> set ids. length (A i) = length (B i)"
  shows "zip (concat (map A ids)) (concat (map B ids)) = concat (map (\<lambda>i. zip (A i) (B i)) ids)"
  using assms by (induction ids) simp_all

lemma squared_error_swap:
  "sum_list (map (\<lambda>(t, p). (p - t)\<^sup>2) (zip ts ps)) = squared_error ps (ts :: real list)"
proof -
  have "map (\<lambda>(t, p). (p - t)\<^sup>2) (zip ts ps) = map (\<lambda>(p, t). (p - t)\<^sup>2) (zip ps ts)"
  proof (induction ts arbitrary: ps)
    case Nil
    then show ?case by simp
  next
    case (Cons t ts)
    then show ?case by (cases ps) simp_all
  qed
  then show ?thesis
    by (simp add: squared_error_def)
qed

lemma batch_loss_value:
  assumes "shape x = n # [28, 28, 1]" and "well_shaped x"
    and "shape y = n # [28, 28, 1]" and "well_shaped y"
    and "\<forall>i \<in> set ids. i < n" and "ids \<noteq> []"
  shows "\<exists>xb yb. gather x ids = Inr xb \<and> gather y ids = Inr yb \<and>
           batch_loss \<lparr>compiled_model = projr autoencoder, loss = mean_squared_error,
                       optimizer = opt\<rparr> xb yb =
             (\<lambda>ws. Inr (reconstruction_mse ws (projr autoencoder) x y ids))"
proof -
  let ?ae = "projr autoencoder"
  let ?c = "\<lparr>compiled_model = ?ae, loss = mean_squared_error, optimizer = opt\<rparr>"
  let ?xb = "\<lparr>shape = length ids # [28, 28, 1], data = concat (map (\<lambda>i. data (image_at x i)) ids)\<rparr>"
  let ?yb = "\<lparr>shape = length ids # [28, 28, 1], data = concat (map (\<lambda>i. data (image_at y i)) ids)\<rparr>"
  have gx: "gather x ids = Inr ?xb" and gy: "gather y ids = Inr ?yb"
    using gather_images [OF assms(1,5)] gather_images [OF assms(3,5)] by simp_all
  have ylen: "\<forall>i \<in> set ids. length (data (image_at y i)) = 784"
    using image_at_length [OF assms(3,4)] assms(5) by simp
  have xsh: "shape (image_at x i) = [28, 28, 1]" for i
    by (simp add: image_at_eq [OF assms(1)])
  have len: "length (data ?yb) = length ids * 784"
    using ylen by (simp add: length_concat o_def sum_list_triv cong: map_cong)
  with assms(6) have ne: "data ?yb \<noteq> []"
    by (metis length_0_conv mult_is_0 zero_neq_numeral)
  have eqlen: "\<forall>i \<in> set ids. length (data (image_at y i)) =
      length (reconstruction ws ?ae (image_at x i))" for ws
    using ylen call_reconstruction(2) [OF xsh] by simp
  have "batch_loss ?c ?xb ?yb ws = Inr (reconstruction_mse ws ?ae x y ids)" for ws
  proof -
    let ?pred = "\<lparr>shape = length ids # [28, 28, 1],
                   data = concat (map (\<lambda>i. reconstruction ws ?ae (image_at x i)) ids)\<rparr>"
    have cb: "call_batch ws ?ae ?xb = Inr ?pred"
      by (rule call_batch_gather [OF assms(1,2,5,6)])
    have "sum_list (map (\<lambda>(t, p). (p - t)\<^sup>2) (zip (data ?yb) (data ?pred))) =
        sum_list (map (\<lambda>i. squared_error (reconstruction ws ?ae (image_at x i)) (data (image_at y i))) ids)"
      by (simp add: zip_concat_map [OF eqlen] sum_list_concat_map squared_error_swap)
    moreover have "real (length (data ?yb)) = real (length ids * prod_list (tl (shape y)))"
      using len assms(3) by simp
    ultimately have "mean_squared_error ?yb ?pred = Inr (reconstruction_mse ws ?ae x y ids)"
      using ne by (simp add: mean_squared_error_def reconstruction_mse_def)
    with cb show ?thesis
      by (simp add: batch_loss_def)
  qed
  then have "batch_loss ?c ?xb ?yb = (\<lambda>ws. Inr (reconstruction_mse ws ?ae x y ids))"
    by (rule ext)
  with gx gy show ?thesis
    by blast
qed

lemma train_batches_spec:
  fixes st :: "'o model_state"
  assumes "shape x = n # [28, 28, 1]" and "well_shaped x"
    and "shape y = n # [28, 28, 1]" and "well_shaped y"
    and "\<forall>i \<in> set idx. i < n"
    and "\<forall>(a, b) \<in> set batches. a < b \<and> b \<le> length idx"
  shows "train_batches \<lparr>compiled_model = projr autoencoder, loss = mean_squared_error,
                         optimizer = opt\<rparr> x y idx batches st =
           Inr (spec_steps opt (projr autoencoder) x y
                  (map (\<lambda>(a, b). take (b - a) (drop a idx)) batches) st)"
  using assms(6)
proof (induction batches arbitrary: st)
  case Nil
  then show ?case by simp
next
  case (Cons ab batches)
  let ?ae = "projr autoencoder"
  let ?c = "\<lparr>compiled_model = ?ae, loss = mean_squared_error, optimizer = opt\<rparr>"
  obtain a b where ab: "ab = (a, b)"
    by (cases ab)
  let ?ids = "take (b - a) (drop a idx)"
  let ?obj = "\<lambda>ws. Inr (reconstruction_mse ws ?ae x y ?ids) :: error + real"
  from Cons.prems ab have bnd: "a < b" "b \<le> length idx"
    by auto
  then have ne: "?ids \<noteq> []"
    by auto
  have "set ?ids \<subseteq> set idx"
    by (meson set_drop_subset set_take_subset subset_trans)
  with assms(5) have r: "\<forall>i \<in> set ?ids. i < n"
    by auto
  from batch_loss_value [OF assms(1,2,3,4) r ne, of opt]
  obtain xb yb where g: "gather x ?ids = Inr xb" "gather y ?ids = Inr yb"
    and bl: "batch_loss ?c xb yb = ?obj"
    by blast
  have t: "train_on_batch ?c xb yb st =
      Inr (reconstruction_mse (model_weights st) ?ae x y ?ids, opt ?obj st)"
    by (simp add: train_on_batch_def bl)
  from Cons.prems have "\<forall>(a, b) \<in> set batches. a < b \<and> b \<le> length idx"
    by simp
  from Cons.IH [OF this, of "opt ?obj st"]
  have rest: "train_batches ?c x y idx batches (opt ?obj st) =
      Inr (spec_steps opt ?ae x y (map (\<lambda>(a, b). take (b - a) (drop a idx)) batches)
             (opt ?obj st))" .
  show ?case
    using g t rest by (simp add: ab split: prod.splits)
qed

lemma make_batches_slices:
  "map (\<lambda>(a, b). take (b - a) (drop a idx)) (make_batches (length idx) bs) = mini_batches bs idx"
proof -
  have "take (min (length idx) ((j + 1) * bs) - j * bs) (drop (j * bs) idx) =
      take bs (drop (j * bs) idx)" for j
    by (cases "length idx \<le> (j + 1) * bs") (simp_all add: min_def)
  then show ?thesis
    by (simp add: make_batches_def mini_batches_def o_def)
qed

lemma make_batches_empty:
  assumes "0 < bs"
  shows "make_batches n bs = [] \<longleftrightarrow> n = 0"
proof (cases "n = 0")
  case True
  with assms show ?thesis
    by (simp add: make_batches_def)
next
  case False
  with assms make_batches_nonempty [of bs n] show ?thesis
    by simp
qed

lemma upt_split: "a \<le> b \<Longrightarrow> [0..<a] @ [a..<b] = [0..<b]"
  using upt_add_eq_append [of 0 a "b - a"] by simp

lemma concat_batches_upto:
  "concat (map (\<lambda>(a, b). [a..<b]) (map (\<lambda>i. (i * bs, min m ((i + 1) * bs))) [0..<k])) =
     [0..<min m (k * bs)]"
proof (induction k)
  case 0
  then show ?case by simp
next
  case (Suc k)
  have "[0..<min m (k * bs)] @ [k * bs..<min m ((k + 1) * bs)] = [0..<min m ((k + 1) * bs)]"
  proof (cases "k * bs \<le> m")
    case True
    then have a: "min m (k * bs) = k * bs" and b: "k * bs \<le> min m ((k + 1) * bs)"
      by simp_all
    show ?thesis
      unfolding a by (rule upt_split [OF b])
  next
    case False
    then have "min m (k * bs) = m" "min m ((k + 1) * bs) = m" "[k * bs..<m] = []"
      by simp_all
    then show ?thesis
      by (simp only: append_Nil2)
  qed
  with Suc show ?case
    by simp
qed

lemma concat_make_batches:
  assumes "0 < bs"
  shows "concat (map (\<lambda>(a, b). [a..<b]) (make_batches m bs)) = [0..<m]"
proof -
  have "m \<le> (m + bs - 1) div bs * bs"
  proof -
    have "m + bs - 1 < (m + bs - 1) div bs * bs + bs"
      using assms by (metis add.commute mult.commute dividend_less_times_div mult_Suc)
    with assms show ?thesis
      by linarith
  qed
  then show ?thesis
    using concat_batches_upto [of bs m "(m + bs - 1) div bs"]
    by (simp add: make_batches_def min_def)
qed

lemma mse_times_length:
  assumes "ids \<noteq> []"
  shows "reconstruction_mse ws model x y ids * real (length ids) =
           sum_list (map (\<lambda>i. squared_error (reconstruction ws model (image_at x i))
                                (data (image_at y i))) ids) /
           real (prod_list (tl (shape y)))"
  using assms by (simp add: reconstruction_mse_def)

lemma test_batches_value:
  assumes "shape x = m # [28, 28, 1]" and "well_shaped x"
    and "shape y = m # [28, 28, 1]" and "well_shaped y"
    and "\<forall>(a, b) \<in> set batches. a < b \<and> b \<le> m"
  shows "test_batches \<lparr>compiled_model = projr autoencoder, loss = mean_squared_error,
                        optimizer = opt\<rparr> x y batches ws =
           Inr (sum_list (map (\<lambda>i. squared_error (reconstruction ws (projr autoencoder) (image_at x i))
                                      (data (image_at y i)))
                           (concat (map (\<lambda>(a, b). [a..<b]) batches))) / 784)"
  using assms(5)
proof (induction batches)
  case Nil
  then show ?case by simp
next
  case (Cons ab batches)
  let ?ae = "projr autoencoder"
  let ?c = "\<lparr>compiled_model = ?ae, loss = mean_squared_error, optimizer = opt\<rparr>"
  obtain a b where ab: "ab = (a, b)"
    by (cases ab)
  from Cons.prems ab have bnd: "a < b" "b \<le> m"
    by auto
  then have ne: "[a..<b] \<noteq> []" and r: "\<forall>i \<in> set [a..<b]. i < m"
    by auto
  from batch_loss_value [OF assms(1,2,3,4) r ne, of opt]
  obtain xb yb where g: "gather x [a..<b] = Inr xb" "gather y [a..<b] = Inr yb"
    and bl: "batch_loss ?c xb yb = (\<lambda>ws. Inr (reconstruction_mse ws ?ae x y [a..<b]))"
    by blast
  from Cons have rest: "test_batches ?c x y batches ws =
      Inr (sum_list (map (\<lambda>i. squared_error (reconstruction ws ?ae (image_at x i))
                                      (data (image_at y i)))
                           (concat (map (\<lambda>(a, b). [a..<b]) batches))) / 784)"
    by simp
  have "reconstruction_mse ws ?ae x y [a..<b] * real (length [a..<b]) =
      sum_list (map (\<lambda>i. squared_error (reconstruction ws ?ae (image_at x i))
                                (data (image_at y i))) [a..<b]) / 784"
    using mse_times_length [OF ne, of ws ?ae x y] assms(3) by simp
  then show ?case
    using g bl rest by (simp add: ab add_divide_distrib)
qed

lemma test_loop_value:
  assumes "shape x = m # [28, 28, 1]" and "well_shaped x"
    and "shape y = m # [28, 28, 1]" and "well_shaped y" and "0 < bs"
  shows "test_loop \<lparr>compiled_model = projr autoencoder, loss = mean_squared_error,
                     optimizer = opt\<rparr> x y bs ws =
           Inr (if m = 0 then None
                else Some (reconstruction_mse ws (projr autoencoder) x y [0..<m]))"
proof (cases "m = 0")
  case True
  then show ?thesis
    using assms(1,5) by (simp add: test_loop_def make_batches_empty)
next
  case False
  have "\<forall>(a, b) \<in> set (make_batches m bs). a < b \<and> b \<le> m"
    using make_batches_bounds [OF assms(5)] by blast
  from test_batches_value [OF assms(1,2,3,4) this, of opt ws]
  show ?thesis
    using False assms(1,3,5)
    by (simp add: test_loop_def make_batches_empty concat_make_batches reconstruction_mse_def)
qed

lemma fit_loop_spec:
  fixes st :: "'o model_state"
  assumes "shape x = n # [28, 28, 1]" and "well_shaped x"
    and "shape y = n # [28, 28, 1]" and "well_shaped y"
    and "shape vx = m # [28, 28, 1]" and "well_shaped vx"
    and "shape vy = m # [28, 28, 1]" and "well_shaped vy"
    and "\<forall>e ia. length (sh e ia) = length ia \<and> set (sh e ia) = set ia"
    and "\<forall>i \<in> set idx. i < n"
  shows "fit_loop \<lparr>compiled_model = projr autoencoder, loss = mean_squared_error,
                    optimizer = opt\<rparr> x y (Some (vx, vy)) sh 128 idx epochs st =
           Inr (spec_epochs opt (projr autoencoder) x y vx vy sh idx epochs st)"
  using assms(10)
proof (induction epochs arbitrary: idx st)
  case Nil
  then show ?case by simp
next
  case (Cons e epochs)
  let ?ae = "projr autoencoder"
  let ?c = "\<lparr>compiled_model = ?ae, loss = mean_squared_error, optimizer = opt\<rparr>"
  let ?idx = "sh e idx"
  let ?bt = "make_batches (length ?idx) 128"
  have bs: "(0 :: nat) < 128"
    by simp
  from assms(9) Cons.prems have idx: "\<forall>i \<in> set ?idx. i < n"
    by simp
  have "\<forall>(a, b) \<in> set ?bt. a < b \<and> b \<le> length ?idx"
    using make_batches_bounds [OF bs] by blast
  from train_batches_spec [OF assms(1,2,3,4) idx this, of opt st]
  have tr: "train_batches ?c x y ?idx ?bt st =
      Inr (spec_steps opt ?ae x y (mini_batches 128 ?idx) st)"
    by (simp only: make_batches_slices)
  obtain ls st1 where sp: "spec_steps opt ?ae x y (mini_batches 128 ?idx) st = (ls, st1)"
    by (cases "spec_steps opt ?ae x y (mini_batches 128 ?idx) st")
  have v: "test_loop ?c vx vy 128 (model_weights st1) =
      Inr (if m = 0 then None else Some (reconstruction_mse (model_weights st1) ?ae vx vy [0..<m]))"
    by (rule test_loop_value [OF assms(5,6,7,8) bs])
  have e: "?bt = [] \<longleftrightarrow> ?idx = []"
    by (simp add: make_batches_empty)
  have mv: "images_in vy = m"
    using assms(7) by (simp add: images_in_def)
  have val: "(if ?bt = [] then Inr None else test_loop ?c vx vy 128 (model_weights st1)) =
      Inr (if ?idx = [] \<or> images_in vy = 0 then None
           else Some (reconstruction_mse (model_weights st1) ?ae vx vy [0..<images_in vy]))"
    using v e mv by simp
  obtain logs st2 where se: "spec_epochs opt ?ae x y vx vy sh ?idx epochs st1 = (logs, st2)"
    by (cases "spec_epochs opt ?ae x y vx vy sh ?idx epochs st1")
  from Cons.IH [OF idx, of st1]
  have rest: "fit_loop ?c x y (Some (vx, vy)) sh 128 ?idx epochs st1 = Inr (logs, st2)"
    by (simp only: se)
  have "fit_loop ?c x y (Some (vx, vy)) sh 128 idx (e # epochs) st =
      Inr (\<lparr>batch_losses = ls,
             val_loss = (if ?idx = [] \<or> images_in vy = 0 then None
               else Some (reconstruction_mse (model_weights st1) ?ae vx vy [0..<images_in vy]))\<rparr>
           # logs, st2)"
    by (simp only: fit_loop.simps Let_def tr sp val rest sum.case prod.case option.case)
  moreover have "spec_epochs opt ?ae x y vx vy sh idx (e # epochs) st =
      (\<lparr>batch_losses = ls,
         val_loss = (if ?idx = [] \<or> images_in vy = 0 then None
           else Some (reconstruction_mse (model_weights st1) ?ae vx vy [0..<images_in vy]))\<rparr>
       # logs, st2)"
    by (simp only: spec_epochs.simps Let_def sp se prod.case)
  ultimately show ?case
    by simp
qed

lemma concat_mini_batches:
  assumes "0 < k"
  shows "concat (mini_batches k ids) = ids"
proof -
  have t: "concat (map (\<lambda>j. take k (drop (j * k) ids)) [0..<q]) = take (q * k) ids" for q
  proof (induction q)
    case 0
    then show ?case by simp
  next
    case (Suc q)
    have "take (Suc q * k) ids = take (q * k) ids @ take k (drop (q * k) ids)"
      using take_add [of "q * k" k ids] by (simp add: add.commute)
    with Suc show ?case
      by simp
  qed
  have "length ids \<le> (length ids + k - 1) div k * k"
  proof -
    have "length ids + k - 1 < (length ids + k - 1) div k * k + k"
      using assms by (metis add.commute mult.commute dividend_less_times_div mult_Suc)
    with assms show ?thesis
      by linarith
  qed
  then show ?thesis
    by (simp add: mini_batches_def t)
qed

lemma mini_batches_bounds:
  assumes "0 < k" and "b \<in> set (mini_batches k ids)"
  shows "b \<noteq> [] \<and> length b \<le> k"
proof -
  from assms(2) obtain a e where ae: "(a, e) \<in> set (make_batches (length ids) k)"
    "b = take (e - a) (drop a ids)"
    unfolding make_batches_slices [symmetric] by auto
  from make_batches_bounds [OF assms(1) ae(1)] ae(2) show ?thesis
    by auto
qed

lemma spec_epochs_length:
  "length (fst (spec_epochs opt model x y vx vy sh ids epochs st)) = length epochs"
proof (induction epochs arbitrary: ids st)
  case Nil
  then show ?case by simp
next
  case (Cons e epochs)
  obtain ls st1 where a: "spec_steps opt model x y (mini_batches 128 (sh e ids)) st = (ls, st1)"
    by (cases "spec_steps opt model x y (mini_batches 128 (sh e ids)) st")
  obtain logs st2 where b: "spec_epochs opt model x y vx vy sh (sh e ids) epochs st1 = (logs, st2)"
    by (cases "spec_epochs opt model x y vx vy sh (sh e ids) epochs st1")
  from Cons [of "sh e ids" st1] b have "length logs = length epochs"
    by simp
  then show ?case
    by (simp add: Let_def a b)
qed

text \<open>
  Claim C7. The training cell compiles the autoencoder with the loss \<open>mse\<close>, which is the
  mean squared error, and with the optimizer the library constructs for the name \<open>adam\<close>
  (the notebook passes no hyperparameter). Its fit is the training the specification
  describes: 2 epochs over the noisy training images in mini-batches of at most 128 that
  together hold every image once; the loss logged and handed to the optimizer for a
  mini-batch is the mean squared error between the autoencoder's reconstructions of the
  noisy images and the clean images at the same indices; after each epoch the validation
  loss is that error on the noisy and clean test images, computed at the weights the epoch
  ended with, and the state is passed on as it is.
\<close>

theorem training_as_specified:
  fixes st :: "'o model_state" and lib :: "'o library"
  assumes "lookup ''x_train_noisy'' s = Inr xn" and "lookup ''x_train'' s = Inr xc"
    and "lookup ''x_test_noisy'' s = Inr tn" and "lookup ''x_test'' s = Inr tc"
    and "shape xn = n # input_shape" and "well_shaped xn"
    and "shape xc = n # input_shape" and "well_shaped xc"
    and "shape tn = m # input_shape" and "well_shaped tn"
    and "shape tc = m # input_shape" and "well_shaped tc"
    and "optimizers lib ''adam'' = Some adam"
    and "\<forall>e ia. length (shuffle lib e ia) = length ia \<and> set (shuffle lib e ia) = set ia"
  shows "\<exists>ae.
           autoencoder = Inr ae \<and>
           compile lib ae ''mse'' ''adam'' =
             Inr \<lparr>compiled_model = ae, loss = mean_squared_error, optimizer = adam\<rparr> \<and>
           training_cell lib s st =
             Inr (spec_training adam ae xn xc tn tc (shuffle lib) st) \<and>
           length (fst (spec_training adam ae xn xc tn tc (shuffle lib) st)) = 2 \<and>
           (\<forall>ids. concat (mini_batches 128 ids) = ids \<and>
              (\<forall>b \<in> set (mini_batches 128 ids). b \<noteq> [] \<and> length b \<le> 128))"
proof -
  let ?ae = "projr autoencoder"
  let ?c = "\<lparr>compiled_model = ?ae, loss = mean_squared_error, optimizer = adam\<rparr>"
  have ae: "autoencoder = Inr ?ae"
    by (simp add: autoencoder_eq)
  have cmp: "compile lib ?ae ''mse'' ''adam'' = Inr ?c"
    using assms(13) by (simp add: compile_def get_loss_def)
  have sh: "shape xn = n # [28, 28, 1]" "shape xc = n # [28, 28, 1]"
    "shape tn = m # [28, 28, 1]" "shape tc = m # [28, 28, 1]"
    using assms(5,7,9,11) by (simp_all add: input_shape_def image_size_def)
  have cell: "training_cell lib s st = fit lib ?c xn xc (Some (tn, tc)) 2 128 st"
    using assms(1-4,13)
    by (simp add: training_cell_def autoencoder_eq compile_def get_loss_def batch_size_def)
  have idx: "\<forall>i \<in> set [0..<n]. i < n"
    by simp
  have loop: "fit_loop ?c xn xc (Some (tn, tc)) (shuffle lib) 128 [0..<n] [0..<2] st =
      Inr (spec_epochs adam ?ae xn xc tn tc (shuffle lib) [0..<n] [0..<2] st)"
    by (rule fit_loop_spec [OF sh(1) assms(6) sh(2) assms(8) sh(3) assms(10) sh(4) assms(12)
          assms(14) idx])
  have two: "[0..<2] = [0, 1 :: nat]"
    by (simp add: upt_rec)
  have f: "fit lib ?c xn xc (Some (tn, tc)) 2 128 st =
      Inr (spec_training adam ?ae xn xc tn tc (shuffle lib) st)"
    using sh(1,2) loop by (simp add: fit_def spec_training_def images_in_def two)
  have len: "length (fst (spec_training adam ?ae xn xc tn tc (shuffle lib) st)) = 2"
    unfolding spec_training_def spec_epochs_length by simp
  have mb: "\<forall>ids. concat (mini_batches 128 ids) = ids \<and>
      (\<forall>b \<in> set (mini_batches 128 ids). b \<noteq> [] \<and> length b \<le> 128)"
    using concat_mini_batches [of 128] mini_batches_bounds [of 128] by simp
  from ae cmp cell f len mb show ?thesis
    by (intro exI [of _ ?ae] conjI) simp_all
qed

lemma sum_list_zeros: "(\<forall>v \<in> set xs. v = (0 :: real)) \<Longrightarrow> sum_list xs = 0"
  by (induction xs) simp_all

lemma constant_list: "(\<forall>v \<in> set xs. v = c) \<Longrightarrow> xs = replicate (length xs) c"
  by (induction xs) simp_all

lemma conv2d_zero_weights:
  assumes "shape x = [h, w, c]" and "conv_shape False filters k st p h w = Inr (oh, ow, f)"
  shows "conv2d ([], []) filters k st p a x =
           Inr \<lparr>shape = [oh, ow, f], data = replicate (oh * ow * f) (activate a 0)\<rparr>"
proof -
  let ?d = "[activate a
               (item (snd (([], []) :: real list \<times> real list)) co +
                sum_list
                  [pixel x (int (oy * st + i) - int (pad_before h oh k st p))
                     (int (ox * st + j) - int (pad_before w ow k st p)) ci *
                   item (fst (([], []) :: real list \<times> real list)) (((i * k + j) * c + ci) * f + co).
                   i \<leftarrow> [0..<k], j \<leftarrow> [0..<k], ci \<leftarrow> [0..<c]]).
             oy \<leftarrow> [0..<oh], ox \<leftarrow> [0..<ow], co \<leftarrow> [0..<f]]"
  have "\<forall>v \<in> set ?d. v = activate a 0"
    by (auto simp: item_def intro!: arg_cong [where f = "activate a"] sum_list_zeros
        split: if_splits)
  from constant_list [OF this] have "?d = replicate (oh * ow * f) (activate a 0)"
    by (simp only: length_comprehension3)
  with assms show ?thesis
    by (simp add: conv2d_def Let_def)
qed

lemma conv2d_transpose_bias_only:
  assumes "shape x = [h, w, c]" and "conv_shape True filters k st p h w = Inr (oh, ow, f)"
    and "\<forall>co < f. item bs co = b"
  shows "conv2d_transpose ([], bs) filters k st p a x =
           Inr \<lparr>shape = [oh, ow, f], data = replicate (oh * ow * f) (activate a b)\<rparr>"
proof -
  let ?d = "[activate a
               (item bs co +
                sum_list
                  [(let u = int oy + int (pad_before oh h k st p) - int i;
                        v = int ox + int (pad_before ow w k st p) - int j
                    in if u mod int st = 0 \<and> v mod int st = 0
                       then pixel x (u div int st) (v div int st) ci *
                            item [] (((i * k + j) * f + co) * c + ci)
                       else 0).
                   i \<leftarrow> [0..<k], j \<leftarrow> [0..<k], ci \<leftarrow> [0..<c]]).
             oy \<leftarrow> [0..<oh], ox \<leftarrow> [0..<ow], co \<leftarrow> [0..<f]]"
  have z: "sum_list
        [(let u = int oy + int (pad_before oh h k st p) - int i;
              v = int ox + int (pad_before ow w k st p) - int j
          in if u mod int st = 0 \<and> v mod int st = 0
             then pixel x (u div int st) (v div int st) ci *
                  item [] (((i * k + j) * f + co) * c + ci)
             else 0).
         i \<leftarrow> [0..<k], j \<leftarrow> [0..<k], ci \<leftarrow> [0..<c]] = 0" for oy ox co
    by (rule sum_list_zeros) (auto simp: item_def Let_def split: if_splits)
  have "\<forall>v \<in> set ?d. v = activate a b"
    using assms(3) by (auto simp: z)
  from constant_list [OF this] have "?d = replicate (oh * ow * f) (activate a b)"
    by (simp only: length_comprehension3)
  with assms(1,2) show ?thesis
    by (simp add: conv2d_transpose_def Let_def cong: if_cong)
qed

lemma dense_zero_weights:
  assumes "shape x = [n]"
  shows "dense ([], []) units a x = Inr \<lparr>shape = [units], data = replicate units (activate a 0)\<rparr>"
  using assms by (simp add: dense_shape item_def map_replicate_const sum_list_replicate)

lemma reconstruction_bias_only:
  assumes "shape x = [28, 28, 1]"
    and "\<forall>nm. nm \<noteq> ''conv2d_transpose_3'' \<longrightarrow> ws nm = ([], [])"
    and "ws ''conv2d_transpose_3'' = ([], [b])"
  shows "reconstruction ws (projr autoencoder) x = replicate 784 (activate (Some sigmoid) b)"
proof -
  have s1: "conv_shape False 32 3 2 same 28 28 = Inr (14, 14, 32)"
    and s2: "conv_shape False 64 3 2 same 14 14 = Inr (7, 7, 64)"
    by (simp_all add: conv_shape_def conv_output_length_def)
  have t1: "conv_shape True 64 3 2 same 7 7 = Inr (14, 14, 64)"
    and t2: "conv_shape True 32 3 2 same 14 14 = Inr (28, 28, 32)"
    and t3: "conv_shape True 1 3 1 same 28 28 = Inr (28, 28, 1)"
    by (simp_all add: conv_shape_def deconv_length_def)
  have r: "activate (Some relu) 0 = 0" and l: "activate None v = v" for v
    by (simp_all add: activate_def)
  have w: "ws ''conv2d_1'' = ([], [])" "ws ''conv2d_2'' = ([], [])"
    "ws ''latent_vector'' = ([], [])" "ws ''dense_1'' = ([], [])"
    "ws ''conv2d_transpose_1'' = ([], [])" "ws ''conv2d_transpose_2'' = ([], [])"
    using assms(2) by simp_all
  have zb: "\<forall>co < f. item [] co = 0" for f
    by (simp add: item_def)
  have ob: "\<forall>co < 1. item [b] co = b"
    by (simp add: item_def)
  let ?y1 = "\<lparr>shape = [14, 14, 32], data = replicate (14 * 14 * 32) (0 :: real)\<rparr>"
  let ?y2 = "\<lparr>shape = [7, 7, 64], data = replicate (7 * 7 * 64) (0 :: real)\<rparr>"
  let ?z = "\<lparr>shape = [16], data = replicate 16 (0 :: real)\<rparr>"
  let ?d = "\<lparr>shape = [3136], data = replicate 3136 (0 :: real)\<rparr>"
  let ?u1 = "\<lparr>shape = [14, 14, 64], data = replicate (14 * 14 * 64) (0 :: real)\<rparr>"
  let ?u2 = "\<lparr>shape = [28, 28, 32], data = replicate (28 * 28 * 32) (0 :: real)\<rparr>"
  let ?u3 = "\<lparr>shape = [28, 28, 1], data = replicate (28 * 28 * 1) b\<rparr>"
  have c1: "conv2d ([], []) 32 3 2 same (Some relu) x = Inr ?y1"
    using conv2d_zero_weights [OF assms(1) s1, of "Some relu"] by (simp only: r)
  have c2: "conv2d ([], []) 64 3 2 same (Some relu) ?y1 = Inr ?y2"
    using conv2d_zero_weights [OF _ s2, of ?y1 32 "Some relu"] by (simp only: r ndarray.simps)
  have e: "call ws (projr encoder) x = Inr ?z"
    using assms(1) c1 c2
      dense_zero_weights [of "\<lparr>shape = [3136], data = data ?y2\<rparr>" 3136 16 None]
    by (simp add: encoder_eq strides_of_def l w)
  have d1: "dense ([], []) 3136 None ?z = Inr ?d"
    using dense_zero_weights [of ?z 16 3136 None] by (simp add: l)
  have d2: "conv2d_transpose ([], []) 64 3 2 same (Some relu) \<lparr>shape = [7, 7, 64], data = data ?d\<rparr>
      = Inr ?u1"
    using conv2d_transpose_bias_only [OF _ t1 zb, of "\<lparr>shape = [7, 7, 64], data = data ?d\<rparr>" 64
        "Some relu"]
    by (simp only: r ndarray.simps)
  have d3: "conv2d_transpose ([], []) 32 3 2 same (Some relu) ?u1 = Inr ?u2"
    using conv2d_transpose_bias_only [OF _ t2 zb, of ?u1 64 "Some relu"]
    by (simp only: r ndarray.simps)
  have d4: "conv2d_transpose ([], [b]) 1 3 1 same None ?u2 = Inr ?u3"
    using conv2d_transpose_bias_only [OF _ t3 ob, of ?u2 32 None]
    by (simp only: l ndarray.simps)
  have d: "call ws (projr decoder) ?z =
      Inr \<lparr>shape = [28, 28, 1], data = replicate 784 (activate (Some sigmoid) b)\<rparr>"
    using d1 d2 d3 d4 by (simp add: decoder_eq strides_of_def w assms(3))
  have "call ws (projr autoencoder) x =
      Inr \<lparr>shape = [28, 28, 1], data = replicate 784 (activate (Some sigmoid) b)\<rparr>"
    using assms(1) e d by (simp add: autoencoder_eq)
  then show ?thesis
    by (simp add: reconstruction_def)
qed

theorem training_as_specified_witness:
  "lookup ''x_train_noisy''
     \<lparr>heap = [\<lparr>shape = [1, 28, 28, 1], data = replicate 784 1\<rparr>,
              \<lparr>shape = [1, 28, 28, 1], data = replicate 784 0\<rparr>,
              \<lparr>shape = [1, 28, 28, 1], data = replicate 784 (3 / 4)\<rparr>,
              \<lparr>shape = [1, 28, 28, 1], data = replicate 784 (1 / 4)\<rparr>],
      vars = [''x_train_noisy'' \<mapsto> 0, ''x_train'' \<mapsto> 1, ''x_test_noisy'' \<mapsto> 2,
              ''x_test'' \<mapsto> 3],
      rng = (\<lambda>i. 0)\<rparr> = Inr \<lparr>shape = [1, 28, 28, 1], data = replicate 784 1\<rparr> \<and>
   lookup ''x_train''
     \<lparr>heap = [\<lparr>shape = [1, 28, 28, 1], data = replicate 784 1\<rparr>,
              \<lparr>shape = [1, 28, 28, 1], data = replicate 784 0\<rparr>,
              \<lparr>shape = [1, 28, 28, 1], data = replicate 784 (3 / 4)\<rparr>,
              \<lparr>shape = [1, 28, 28, 1], data = replicate 784 (1 / 4)\<rparr>],
      vars = [''x_train_noisy'' \<mapsto> 0, ''x_train'' \<mapsto> 1, ''x_test_noisy'' \<mapsto> 2,
              ''x_test'' \<mapsto> 3],
      rng = (\<lambda>i. 0)\<rparr> = Inr \<lparr>shape = [1, 28, 28, 1], data = replicate 784 0\<rparr> \<and>
   shape \<lparr>shape = [1, 28, 28, 1], data = replicate 784 (0 :: real)\<rparr> = 1 # input_shape \<and>
   well_shaped \<lparr>shape = [1, 28, 28, 1], data = replicate 784 (0 :: real)\<rparr> \<and>
   training_cell
     \<lparr>optimizers =
        [''adam'' \<mapsto>
           (\<lambda>objective st.
              st\<lparr>model_weights := (model_weights st)(''conv2d_transpose_3'' := ([], [1])),
                 optimizer_state := optimizer_state st @ [objective (model_weights st)]\<rparr>)],
      shuffle = (\<lambda>e ia. rev ia)\<rparr>
     \<lparr>heap = [\<lparr>shape = [1, 28, 28, 1], data = replicate 784 1\<rparr>,
              \<lparr>shape = [1, 28, 28, 1], data = replicate 784 0\<rparr>,
              \<lparr>shape = [1, 28, 28, 1], data = replicate 784 (3 / 4)\<rparr>,
              \<lparr>shape = [1, 28, 28, 1], data = replicate 784 (1 / 4)\<rparr>],
      vars = [''x_train_noisy'' \<mapsto> 0, ''x_train'' \<mapsto> 1, ''x_test_noisy'' \<mapsto> 2,
              ''x_test'' \<mapsto> 3],
      rng = (\<lambda>i. 0)\<rparr>
     \<lparr>model_weights = (\<lambda>nm. ([], []))(''conv2d_transpose_3'' := ([], [0])),
      optimizer_state = []\<rparr> =
     Inr ([\<lparr>batch_losses = [1 / 4],
            val_loss = Some ((activate (Some sigmoid) 1 - 1 / 4)\<^sup>2)\<rparr>,
           \<lparr>batch_losses = [(activate (Some sigmoid) 1)\<^sup>2],
            val_loss = Some ((activate (Some sigmoid) 1 - 1 / 4)\<^sup>2)\<rparr>],
          \<lparr>model_weights = (\<lambda>nm. ([], []))(''conv2d_transpose_3'' := ([], [1])),
           optimizer_state = [Inr (1 / 4), Inr ((activate (Some sigmoid) 1)\<^sup>2)]\<rparr>)"
proof -
  let ?xn = "\<lparr>shape = [1, 28, 28, 1], data = replicate 784 (1 :: real)\<rparr>"
  let ?xc = "\<lparr>shape = [1, 28, 28, 1], data = replicate 784 (0 :: real)\<rparr>"
  let ?tn = "\<lparr>shape = [1, 28, 28, 1], data = replicate 784 (3 / 4 :: real)\<rparr>"
  let ?tc = "\<lparr>shape = [1, 28, 28, 1], data = replicate 784 (1 / 4 :: real)\<rparr>"
  let ?s = "\<lparr>heap = [?xn, ?xc, ?tn, ?tc],
             vars = [''x_train_noisy'' \<mapsto> 0, ''x_train'' \<mapsto> 1, ''x_test_noisy'' \<mapsto> 2,
                     ''x_test'' \<mapsto> 3],
             rng = (\<lambda>i. 0)\<rparr>"
  let ?opt = "(\<lambda>objective st.
      st\<lparr>model_weights := (model_weights st)(''conv2d_transpose_3'' := ([], [1])),
         optimizer_state := optimizer_state st @ [objective (model_weights st)]\<rparr>)
      :: (error + real) list optimizer"
  let ?lib = "\<lparr>optimizers = [''adam'' \<mapsto> ?opt], shuffle = (\<lambda>e ia. rev ia)\<rparr>"
  let ?w0 = "((\<lambda>nm. ([], []))(''conv2d_transpose_3'' := ([], [0]))) :: weights"
  let ?w1 = "((\<lambda>nm. ([], []))(''conv2d_transpose_3'' := ([], [1]))) :: weights"
  let ?st = "\<lparr>model_weights = ?w0, optimizer_state = ([] :: (error + real) list)\<rparr>"
  let ?ae = "projr autoencoder"
  let ?g = "activate (Some sigmoid) 1"
  have l: "lookup ''x_train_noisy'' ?s = Inr ?xn" "lookup ''x_train'' ?s = Inr ?xc"
    "lookup ''x_test_noisy'' ?s = Inr ?tn" "lookup ''x_test'' ?s = Inr ?tc"
    by (simp_all add: lookup_def)
  have sh: "shape ?xn = 1 # input_shape" "shape ?xc = 1 # input_shape"
    "shape ?tn = 1 # input_shape" "shape ?tc = 1 # input_shape"
    by (simp_all add: input_shape_def image_size_def)
  have w: "well_shaped ?xn" "well_shaped ?xc" "well_shaped ?tn" "well_shaped ?tc"
    by (simp_all add: well_shaped_def)
  have o: "optimizers ?lib ''adam'' = Some ?opt"
    by simp
  have p: "\<forall>e ia. length (shuffle ?lib e ia) = length ia \<and> set (shuffle ?lib e ia) = set ia"
    by simp
  from training_as_specified [OF l sh(1) w(1) sh(2) w(2) sh(3) w(3) sh(4) w(4) o p, of ?st]
  obtain ae where r: "autoencoder = Inr ae"
    "training_cell ?lib ?s ?st = Inr (spec_training ?opt ae ?xn ?xc ?tn ?tc (shuffle ?lib) ?st)"
    by blast
  from r(1) have ae: "ae = ?ae"
    by (metis sum.sel(2))
  have r0: "reconstruction ?w0 ?ae x = replicate 784 (1 / 2)" if "shape x = [28, 28, 1]" for x
    using reconstruction_bias_only [OF that, of ?w0 0] by (simp add: activate_def)
  have r1: "reconstruction ?w1 ?ae x = replicate 784 ?g" if "shape x = [28, 28, 1]" for x
    using reconstruction_bias_only [OF that, of ?w1 1] by simp
  have m1: "reconstruction_mse ?w0 ?ae ?xn ?xc [0] = 1 / 4"
    by (simp add: reconstruction_mse_def squared_error_def image_at_def r0 sum_list_replicate
        power2_eq_square)
  have m2: "reconstruction_mse ?w1 ?ae ?xn ?xc [0] = ?g\<^sup>2"
    by (simp add: reconstruction_mse_def squared_error_def image_at_def r1 sum_list_replicate)
  have m3: "reconstruction_mse ?w1 ?ae ?tn ?tc [0] = (?g - 1 / 4)\<^sup>2"
    by (simp add: reconstruction_mse_def squared_error_def image_at_def r1 sum_list_replicate)
  have "spec_training ?opt ?ae ?xn ?xc ?tn ?tc (shuffle ?lib) ?st =
      ([\<lparr>batch_losses = [1 / 4], val_loss = Some ((?g - 1 / 4)\<^sup>2)\<rparr>,
        \<lparr>batch_losses = [?g\<^sup>2], val_loss = Some ((?g - 1 / 4)\<^sup>2)\<rparr>],
       \<lparr>model_weights = ?w1, optimizer_state = [Inr (1 / 4), Inr (?g\<^sup>2)]\<rparr>)"
    using m1 m2 m3 by (simp add: spec_training_def images_in_def mini_batches_def Let_def)
  with r(2) ae l(1,2) sh(2) w(2) show ?thesis
    by simp
qed

end
